theory Spec2Isabelle
  imports Complex_Main
begin

section \<open>Python primitives used by the player\<close>

text \<open>
  The exceptions the modelled code can raise. \<open>MixerError\<close> stands for the exception
  \<^verbatim>\<open>pygame.error\<close> of the audio collaborator, with its message.
\<close>

datatype py_error = ValueError | TypeError | ZeroDivisionError | MixerError string

text \<open>
  \<^verbatim>\<open>max(iterable, key=f)\<close>: the running best element is replaced only by an element
  whose key is strictly greater, so the first maximal element wins; on an empty
  iterable Python raises \<^verbatim>\<open>ValueError\<close>.
\<close>

fun max_from :: "('a \<Rightarrow> 'b::linorder) \<Rightarrow> 'a \<Rightarrow> 'a list \<Rightarrow> 'a" where
  "max_from key best [] = best"
| "max_from key best (x # xs) = max_from key (if key best < key x then x else best) xs"

definition py_max :: "('a \<Rightarrow> 'b::linorder) \<Rightarrow> 'a list \<Rightarrow> py_error + 'a" where
  "py_max key xs = (case xs of [] \<Rightarrow> Inl ValueError | x # rest \<Rightarrow> Inr (max_from key x rest))"

text \<open>
  Truthiness of an optional string: \<^verbatim>\<open>None\<close> and the empty string are falsy.
\<close>

fun truthy :: "string option \<Rightarrow> bool" where
  "truthy None = False"
| "truthy (Some s) = (s \<noteq> [])"

text \<open>
  \<^verbatim>\<open>collections.deque(maxlen=n)\<close>: \<^verbatim>\<open>append\<close> adds on the right and, when the
  length then exceeds \<open>maxlen\<close>, drops the leftmost entry.
\<close>

record 'a deque =
  maxlen :: nat
  items :: "'a list"

definition deque_new :: "nat \<Rightarrow> 'a deque" where
  "deque_new n = \<lparr>maxlen = n, items = []\<rparr>"

definition deque_append :: "'a deque \<Rightarrow> 'a \<Rightarrow> 'a deque" where
  "deque_append d x =
     (let ys = items d @ [x]
      in d\<lparr>items := (if length ys > maxlen d then tl ys else ys)\<rparr>)"

text \<open>
  A Python \<^verbatim>\<open>dict\<close> whose iteration order matters is an association list in
  insertion order: \<^verbatim>\<open>d.get(k, default)\<close> and \<^verbatim>\<open>d[k] = v\<close> (an existing key keeps
  its place, a new key goes last).
\<close>

fun dict_get :: "('k \<times> 'v) list \<Rightarrow> 'k \<Rightarrow> 'v \<Rightarrow> 'v" where
  "dict_get [] k dflt = dflt"
| "dict_get ((k', v) # rest) k dflt = (if k' = k then v else dict_get rest k dflt)"

fun dict_set :: "('k \<times> 'v) list \<Rightarrow> 'k \<Rightarrow> 'v \<Rightarrow> ('k \<times> 'v) list" where
  "dict_set [] k v = [(k, v)]"
| "dict_set ((k', v') # rest) k v = (if k' = k then (k, v) # rest else (k', v') # dict_set rest k v)"

text \<open>\<^verbatim>\<open>os.path.basename\<close>: the part of a path after its last slash.\<close>

definition basename :: "string \<Rightarrow> string" where
  "basename p = rev (takeWhile (\<lambda>c. c \<noteq> CHR ''/'') (rev p))"

section \<open>The player's state and its collaborators\<close>

text \<open>
  Calls made to the audio collaborator \<^verbatim>\<open>pygame.mixer.music\<close>, in order, and the
  lines printed to standard output. Both are traces kept in the state: what the
  collaborator answers is an input of each loop iteration (record \<open>env\<close> below).
\<close>

datatype mixer_call = MusicStop | MusicLoad string | MusicPlay | MusicGetBusy

datatype message =
    NoSongsAvailable string
  | NowPlaying string string
  | ErrorPlayingSong py_error
  | DetectionError string
  | CouldNotReadFrame
  | Stopping

text \<open>
  The fields of \<^verbatim>\<open>EmotionMusicPlayer\<close> set by \<^verbatim>\<open>__init__\<close> (lines 45-63), the local
  variables of \<^verbatim>\<open>run\<close> that live across loop iterations (lines 204-208), and the two
  traces. Scores and clock readings are floats in the source; only their order and
  differences are used, and they are modelled as reals. The fields \<^verbatim>\<open>songs_dir\<close>,
  \<^verbatim>\<open>emotion_detector\<close> and \<^verbatim>\<open>last_emotion_change\<close> are left out: the first two belong
  to the collaborators, the third is never read.
\<close>

record player =
  current_emotion :: "string option"
  current_song :: "string option"
  emotion_stability_threshold :: real
  emotion_history :: "string deque"
  confidence_threshold :: real
  detection_frequency :: nat
  songs :: "string \<rightharpoonup> string list"
  frame_count :: nat
  pending_emotion :: "string option"
  pending_emotion_time :: "real option"
  last_detected_emotion :: "string option"
  last_confidence :: real
  mixer_calls :: "mixer_call list"
  printed :: "message list"

text \<open>
  The state after \<^verbatim>\<open>__init__\<close> and the initialisation of the locals of \<^verbatim>\<open>run\<close>, for
  the catalogue that \<^verbatim>\<open>load_songs\<close> built from the file system (a dict with the keys
  happy, sad and neutral, each with a possibly empty list of paths). The thresholds
  are fields, and the theorems below hold for every value of them; \<open>3 / 10\<close> stands
  for the float 0.3.
\<close>

definition init_player :: "(string \<rightharpoonup> string list) \<Rightarrow> player" where
  "init_player catalogue =
     \<lparr>current_emotion = None, current_song = None, emotion_stability_threshold = 3,
      emotion_history = deque_new 10, confidence_threshold = 3 / 10,
      detection_frequency = 3, songs = catalogue, frame_count = 0,
      pending_emotion = None, pending_emotion_time = None,
      last_detected_emotion = None, last_confidence = 0,
      mixer_calls = [], printed = []\<rparr>"

text \<open>
  \<^verbatim>\<open>self.emotion_categories\<close> (lines 56-60), a dict iterated in insertion order.
\<close>

definition emotion_categories :: "(string \<times> string list) list" where
  "emotion_categories =
     [(''happy'', [''happy'']),
      (''sad'', [''sad'', ''fear'', ''angry'']),
      (''neutral'', [''neutral'', ''surprise'', ''disgust''])]"

section \<open>Emotion normalizer: \<^verbatim>\<open>get_dominant_emotion_category\<close>\<close>

text \<open>
  The loop of lines 107-111: the first category whose list holds the dominant
  emotion, or the default the loop started from.
\<close>

fun categorize :: "(string \<times> string list) list \<Rightarrow> string \<Rightarrow> string \<Rightarrow> string" where
  "categorize [] dominant_emotion category = category"
| "categorize ((cat, emotion_list) # rest) dominant_emotion category =
     (if dominant_emotion \<in> set emotion_list then cat
      else categorize rest dominant_emotion category)"

text \<open>
  The function returns a bare category, or a pair of category and confidence when
  \<^verbatim>\<open>return_confidence\<close> is set.
\<close>

datatype dominant = Category "string option" | CategoryConfidence "string option" real

definition get_dominant_emotion_category ::
  "player \<Rightarrow> (string \<times> real) list \<Rightarrow> bool \<Rightarrow> py_error + dominant" where
  "get_dominant_emotion_category self emotions return_confidence =
     (if emotions = [] then
        Inr (if return_confidence then CategoryConfidence None 0 else Category None)
      else
        (case py_max snd emotions of
           Inl e \<Rightarrow> Inl e
         | Inr (dominant_emotion, confidence) \<Rightarrow>
             if confidence < confidence_threshold self then
               Inr (if return_confidence then CategoryConfidence None confidence
                    else Category None)
             else
               (let category = categorize emotion_categories dominant_emotion ''neutral''
                in Inr (if return_confidence then CategoryConfidence (Some category) confidence
                        else Category (Some category)))))"

text \<open>
  The grouping table as the specification words it: happy to happy; sad, fear and
  angry to sad; neutral, surprise and disgust to neutral; any other label to
  neutral.
\<close>

definition spec_grouping :: "string \<Rightarrow> string" where
  "spec_grouping label =
     (if label = ''happy'' then ''happy''
      else if label = ''sad'' \<or> label = ''fear'' \<or> label = ''angry'' then ''sad''
      else if label = ''neutral'' \<or> label = ''surprise'' \<or> label = ''disgust'' then ''neutral''
      else ''neutral'')"

section \<open>Temporal smoother: \<^verbatim>\<open>get_smoothed_emotion\<close>\<close>

text \<open>
  The counting loop of lines 128-131: falsy entries are skipped, the count of every
  other entry goes up by one. The dict of counts is kept in insertion order, the
  order in which \<^verbatim>\<open>max\<close> later reads it.
\<close>

fun count_emotions :: "(string \<times> nat) list \<Rightarrow> string list \<Rightarrow> (string \<times> nat) list" where
  "count_emotions emotion_counts [] = emotion_counts"
| "count_emotions emotion_counts (emotion # rest) =
     count_emotions
       (if emotion \<noteq> [] then dict_set emotion_counts emotion (dict_get emotion_counts emotion 0 + 1)
        else emotion_counts)
       rest"

definition get_smoothed_emotion :: "player \<Rightarrow> py_error + string option" where
  "get_smoothed_emotion self =
     (if length (items (emotion_history self)) < 3 then Inr None
      else
        (let emotion_counts = count_emotions [] (items (emotion_history self))
         in if emotion_counts = [] then Inr None
            else (case py_max snd emotion_counts of
                    Inl e \<Rightarrow> Inl e
                  | Inr (emotion, n) \<Rightarrow> Inr (Some emotion))))"

section \<open>The inputs of one loop iteration\<close>

text \<open>
  A detected face (its bounding box \<open>(x, y, w, h)\<close> and its scores), and what
  \<^verbatim>\<open>detect_emotions\<close> does on a frame: it raises, or returns a list of faces.
\<close>

record face =
  face_box :: "int \<times> int \<times> int \<times> int"
  face_emotions :: "(string \<times> real) list"

datatype detection = DetectionRaises string | Detected "face list"

text \<open>
  What the collaborators answer during one iteration of the loop of \<^verbatim>\<open>run\<close>:
  whether \<^verbatim>\<open>cap.read()\<close> delivered a frame, the outcome of the classifier, the
  reading of \<^verbatim>\<open>time.time()\<close> in the stability gate, the answer of
  \<^verbatim>\<open>get_busy()\<close> should it be asked, the number \<^verbatim>\<open>random.choice\<close> draws (reduced
  modulo the length of the list, so that every index can be drawn and no other),
  the exception message of \<^verbatim>\<open>music.load\<close> and of \<^verbatim>\<open>music.play\<close> if they raise, and
  whether the quit key was pressed. The mixer is initialised by \<^verbatim>\<open>__init__\<close> (line
  42), so \<^verbatim>\<open>music.stop()\<close> and \<^verbatim>\<open>get_busy()\<close> do not raise.
\<close>

record env =
  frame_ok :: bool
  detect :: detection
  clock :: real
  get_busy :: bool
  random_pick :: nat
  load_error :: "string option"
  play_error :: "string option"
  key_q :: bool

section \<open>Playback selector: \<^verbatim>\<open>play_song_for_emotion\<close>\<close>

text \<open>
  The body of the \<^verbatim>\<open>try\<close> block (lines 178-181). \<open>Inl\<close> is an exception raised
  inside it, together with the state reached when it was raised.
\<close>

definition load_and_play :: "env \<Rightarrow> string \<Rightarrow> string \<Rightarrow> player \<Rightarrow> (py_error \<times> player) + player" where
  "load_and_play env emotion song self =
     (let s1 = self\<lparr>mixer_calls := mixer_calls self @ [MusicLoad song]\<rparr>
      in case load_error env of
           Some msg \<Rightarrow> Inl (MixerError msg, s1)
         | None \<Rightarrow>
             (let s2 = s1\<lparr>mixer_calls := mixer_calls s1 @ [MusicPlay]\<rparr>
              in case play_error env of
                   Some msg \<Rightarrow> Inl (MixerError msg, s2)
                 | None \<Rightarrow>
                     Inr (s2\<lparr>current_song := Some song,
                              printed := printed s2 @ [NowPlaying emotion (basename song)]\<rparr>)))"

text \<open>
  The function has no \<^verbatim>\<open>return\<close> with a value: where it returns, it returns
  \<^verbatim>\<open>None\<close>. The result is the returned value and the new state, or an exception
  that leaves the function.
\<close>

definition play_song_for_emotion ::
  "env \<Rightarrow> string \<Rightarrow> player \<Rightarrow> py_error + (string option \<times> player)" where
  "play_song_for_emotion env emotion self =
     (case songs self emotion of
        None \<Rightarrow> Inr (None, self\<lparr>printed := printed self @ [NoSongsAvailable emotion]\<rparr>)
      | Some tracks \<Rightarrow>
          if tracks = [] then
            Inr (None, self\<lparr>printed := printed self @ [NoSongsAvailable emotion]\<rparr>)
          else
            (let song = tracks ! (random_pick env mod length tracks);
                 s1 = self\<lparr>mixer_calls := mixer_calls self @ [MusicStop]\<rparr>
             in case load_and_play env emotion song s1 of
                  Inr s2 \<Rightarrow> Inr (None, s2)
                | Inl (e, s2) \<Rightarrow> Inr (None, s2\<lparr>printed := printed s2 @ [ErrorPlayingSong e]\<rparr>)))"

section \<open>The main loop: \<^verbatim>\<open>run\<close>\<close>

text \<open>
  The stability gate, lines 268-287 of \<^verbatim>\<open>run\<close>: what the loop does with the
  smoothed emotion of an analysed frame. Subtracting \<^verbatim>\<open>pending_emotion_time\<close> while
  it is still \<^verbatim>\<open>None\<close> would raise \<^verbatim>\<open>TypeError\<close>.
\<close>

definition stability_gate :: "env \<Rightarrow> string option \<Rightarrow> player \<Rightarrow> py_error + player" where
  "stability_gate env smoothed_emotion self =
     (if truthy smoothed_emotion \<and> smoothed_emotion \<noteq> current_emotion self then
        (if pending_emotion self = smoothed_emotion then
           (case pending_emotion_time self of
              None \<Rightarrow> Inl TypeError
            | Some since \<Rightarrow>
                if clock env - since \<ge> emotion_stability_threshold self then
                  (case play_song_for_emotion env (the smoothed_emotion)
                          (self\<lparr>current_emotion := smoothed_emotion\<rparr>) of
                     Inl e \<Rightarrow> Inl e
                   | Inr (r, s1) \<Rightarrow> Inr (s1\<lparr>pending_emotion := None\<rparr>))
                else Inr self)
         else
           Inr (self\<lparr>pending_emotion := smoothed_emotion,
                    pending_emotion_time := Some (clock env)\<rparr>))
      else if smoothed_emotion = current_emotion self then
        (let s1 = self\<lparr>pending_emotion := None\<rparr>;
             s2 = s1\<lparr>mixer_calls := mixer_calls s1 @ [MusicGetBusy]\<rparr>
         in if \<not> get_busy env \<and> truthy (current_emotion s2) then
              (case play_song_for_emotion env (the (current_emotion s2)) s2 of
                 Inl e \<Rightarrow> Inl e
               | Inr (r, s3) \<Rightarrow> Inr s3)
            else Inr s2)
      else Inr self)"

text \<open>
  The analysis of a sampled frame, lines 222-287: detection, the largest face, the
  normalizer, the push into the history, the smoother and the gate. Drawing on the
  frame changes nothing of the state and is left out.
\<close>

definition analyze :: "env \<Rightarrow> player \<Rightarrow> py_error + player" where
  "analyze env self =
     (case detect env of
        DetectionRaises msg \<Rightarrow> Inr (self\<lparr>printed := printed self @ [DetectionError msg]\<rparr>)
      | Detected result \<Rightarrow>
          if result = [] then Inr self
          else
            (case py_max (\<lambda>x. case face_box x of (x0, y0, w, h) \<Rightarrow> w * h) result of
               Inl e \<Rightarrow> Inl e
             | Inr fc \<Rightarrow>
                 (case get_dominant_emotion_category self (face_emotions fc) True of
                    Inl e \<Rightarrow> Inl e
                  | Inr (Category c) \<Rightarrow> Inl TypeError
                  | Inr (CategoryConfidence emotion_category confidence) \<Rightarrow>
                      if truthy emotion_category then
                        (let s1 = self\<lparr>emotion_history :=
                                          deque_append (emotion_history self) (the emotion_category),
                                        last_detected_emotion := emotion_category,
                                        last_confidence := confidence\<rparr>
                         in case get_smoothed_emotion s1 of
                              Inl e \<Rightarrow> Inl e
                            | Inr smoothed_emotion \<Rightarrow> stability_gate env smoothed_emotion s1)
                      else Inr self)))"

text \<open>
  One iteration of the \<^verbatim>\<open>while True\<close> loop, lines 211-326. The flag of the result
  says whether the loop was left by \<^verbatim>\<open>break\<close>. The status display of lines 289-319
  reads the state and changes none of it; it is left out.
\<close>

definition loop_body :: "env \<Rightarrow> player \<Rightarrow> py_error + (bool \<times> player)" where
  "loop_body env self =
     (if \<not> frame_ok env then Inr (True, self\<lparr>printed := printed self @ [CouldNotReadFrame]\<rparr>)
      else if detection_frequency self = 0 then Inl ZeroDivisionError
      else
        (case (if frame_count self mod detection_frequency self = 0 then analyze env self
               else Inr self) of
           Inl e \<Rightarrow> Inl e
         | Inr s1 \<Rightarrow>
             if key_q env then Inr (True, s1\<lparr>printed := printed s1 @ [Stopping]\<rparr>)
             else Inr (False, s1\<lparr>frame_count := frame_count s1 + 1\<rparr>)))"

text \<open>
  The loop over the iterations whose inputs are given: it stops at a \<^verbatim>\<open>break\<close>, at
  an exception, or when the given inputs are used up (the loop itself has no bound;
  the result is then the state reached so far, with the flag unset).
\<close>

fun run_loop :: "env list \<Rightarrow> player \<Rightarrow> py_error + (bool \<times> player)" where
  "run_loop [] self = Inr (False, self)"
| "run_loop (env # envs) self =
     (case loop_body env self of
        Inl e \<Rightarrow> Inl e
      | Inr (stopped, s1) \<Rightarrow> if stopped then Inr (True, s1) else run_loop envs s1)"

text \<open>
  The gate alone, over the analysed frames of a session: each frame gives the
  smoothed emotion the gate sees and the collaborators' answers.
\<close>

fun gate_frames :: "(string option \<times> env) list \<Rightarrow> player \<Rightarrow> py_error + player" where
  "gate_frames [] self = Inr self"
| "gate_frames ((smoothed_emotion, env) # rest) self =
     (case stability_gate env smoothed_emotion self of
        Inl e \<Rightarrow> Inl e
      | Inr s1 \<Rightarrow> gate_frames rest s1)"

section \<open>Sample inputs\<close>

text \<open>
  A catalogue with two happy tracks, one sad track and an empty neutral bucket, a
  loop iteration in which a frame arrives but no face is found (the mixer reports
  that it is playing), and a face whose only score is 0.9 for a given label. The
  closed instances below are built from them.
\<close>

definition sample_catalogue :: "string \<rightharpoonup> string list" where
  "sample_catalogue =
     [''happy'' \<mapsto> [''songs/happy/a.mp3'', ''songs/happy/b.mp3''],
      ''sad'' \<mapsto> [''songs/sad/c.mp3''],
      ''neutral'' \<mapsto> []]"

definition quiet_env :: env where
  "quiet_env =
     \<lparr>frame_ok = True, detect = Detected [], clock = 0, get_busy = True, random_pick = 0,
      load_error = None, play_error = None, key_q = False\<rparr>"

definition sample_face :: "string \<Rightarrow> face" where
  "sample_face label = \<lparr>face_box = (0, 0, 10, 10), face_emotions = [(label, 9 / 10)]\<rparr>"

text \<open>
  An iteration in which the classifier finds that face while the clock reads \<open>t\<close>;
  and three iterations, that one and two quiet ones: with the detection frequency 3
  and a frame count that is a multiple of 3, exactly the first is analysed.
\<close>

definition watching :: "string \<Rightarrow> real \<Rightarrow> env" where
  "watching label t = quiet_env\<lparr>detect := Detected [sample_face label], clock := t\<rparr>"

definition seen :: "string \<Rightarrow> real \<Rightarrow> env list" where
  "seen label t = [watching label t, quiet_env, quiet_env]"

text \<open>A player whose committed mood is neutral, with nothing pending.\<close>

definition committed_neutral :: player where
  "committed_neutral = (init_player sample_catalogue)\<lparr>current_emotion := Some ''neutral''\<rparr>"


text \<open>
  The state of a new player after ten iterations in which the classifier saw a happy
  face on the four analysed frames, at the clock readings 0, 1, 2 and 5: happy has
  been committed and the first happy track started.
\<close>

definition happy_playing :: player where
  "happy_playing =
     (init_player sample_catalogue)
       \<lparr>current_emotion := Some ''happy'',
        current_song := Some ''songs/happy/a.mp3'',
        emotion_history := \<lparr>maxlen = 10, items = [''happy'', ''happy'', ''happy'', ''happy'']\<rparr>,
        frame_count := 10,
        pending_emotion_time := Some 2,
        last_detected_emotion := Some ''happy'',
        last_confidence := 9 / 10,
        mixer_calls := [MusicGetBusy, MusicGetBusy, MusicStop,
                        MusicLoad ''songs/happy/a.mp3'', MusicPlay],
        printed := [NowPlaying ''happy'' ''a.mp3'']\<rparr>"

text \<open>
  That player two quiet iterations later, at a frame count that is sampled again; and
  a new player after six iterations with a happy face on the two analysed frames: two
  entries in the history, nothing committed yet.
\<close>

definition happy_sampled :: player where
  "happy_sampled = happy_playing\<lparr>frame_count := 12\<rparr>"

definition two_happy :: player where
  "two_happy =
     (init_player sample_catalogue)
       \<lparr>emotion_history := \<lparr>maxlen = 10, items = [''happy'', ''happy'']\<rparr>,
        frame_count := 6,
        last_detected_emotion := Some ''happy'',
        last_confidence := 9 / 10,
        mixer_calls := [MusicGetBusy, MusicGetBusy]\<rparr>"

section \<open>Running the model on the sample inputs\<close>

text \<open>
  The definitions that the closed instances unfold to run the model on the sample
  inputs.
\<close>

lemmas run_defs = seen_def watching_def init_player_def sample_catalogue_def quiet_env_def
  sample_face_def
  loop_body_def analyze_def stability_gate_def play_song_for_emotion_def load_and_play_def
  get_smoothed_emotion_def get_dominant_emotion_category_def py_max_def deque_append_def
  deque_new_def emotion_categories_def basename_def Let_def

section \<open>Facts about the primitives\<close>

lemma max_from_mem: "max_from key b xs \<in> set (b # xs)"
  by (induction xs arbitrary: b) auto

lemma max_from_ge_start: "key b \<le> key (max_from key b xs)"
proof (induction xs arbitrary: b)
  case Nil
  show ?case by simp
next
  case (Cons y ys)
  have "key b \<le> key (if key b < key y then y else b)" by (simp add: less_imp_le)
  also have "\<dots> \<le> key (max_from key (if key b < key y then y else b) ys)"
    by (rule Cons.IH)
  finally show ?case by simp
qed

lemma max_from_ge_rest: "x \<in> set xs \<Longrightarrow> key x \<le> key (max_from key b xs)"
proof (induction xs arbitrary: b)
  case Nil
  then show ?case by simp
next
  case (Cons y ys)
  show ?case
  proof (cases "x \<in> set ys")
    case True
    then show ?thesis using Cons.IH[of "if key b < key y then y else b"] by simp
  next
    case False
    with Cons.prems have "x = y" by simp
    then have "key x \<le> key (if key b < key y then y else b)" by (simp add: not_less)
    also have "\<dots> \<le> key (max_from key (if key b < key y then y else b) ys)"
      by (rule max_from_ge_start)
    finally show ?thesis by simp
  qed
qed

lemma max_from_key: "key (max_from key b xs) = Max (key ` set (b # xs))"
proof (rule sym, rule Max_eqI)
  show "finite (key ` set (b # xs))" by simp
  show "\<And>y. y \<in> key ` set (b # xs) \<Longrightarrow> y \<le> key (max_from key b xs)"
    using max_from_ge_rest[of _ xs key b] max_from_ge_start[of key b xs] by auto
  show "key (max_from key b xs) \<in> key ` set (b # xs)"
    by (rule imageI) (rule max_from_mem)
qed

lemma max_from_keep: "\<forall>y \<in> set ys. key y \<le> key x \<Longrightarrow> max_from key x ys = x"
  by (induction ys) auto

lemma max_from_first:
  "\<forall>y \<in> set pre. key y < key x \<Longrightarrow> \<forall>y \<in> set post. key y \<le> key x \<Longrightarrow>
   key b < key x \<Longrightarrow> max_from key b (pre @ x # post) = x"
proof (induction pre arbitrary: b)
  case Nil
  then show ?case by (simp add: max_from_keep)
next
  case (Cons p pre)
  then show ?case by auto
qed

lemma py_max_nonempty: "xs \<noteq> [] \<Longrightarrow> py_max key xs = Inr (max_from key (hd xs) (tl xs))"
  by (cases xs) (simp_all add: py_max_def)

lemma py_max_snd_Max:
  assumes "xs \<noteq> []" and "py_max snd xs = Inr (l, c)"
  shows "c = Max (snd ` set xs)"
proof -
  from assms obtain x rest where xs: "xs = x # rest" by (cases xs) auto
  with assms(2) have "max_from snd x rest = (l, c)" by (simp add: py_max_def)
  then have "c = snd (max_from snd x rest)" by simp
  also have "\<dots> = Max (snd ` set (x # rest))" by (rule max_from_key)
  finally show ?thesis using xs by simp
qed

lemma py_max_first:
  assumes "\<forall>y \<in> set pre. key y < key x" and "\<forall>y \<in> set post. key y \<le> key x"
  shows "py_max key (pre @ x # post) = Inr x"
proof (cases pre)
  case Nil
  with assms(2) show ?thesis by (simp add: py_max_def max_from_keep)
next
  case (Cons p ps)
  with assms have "max_from key p (ps @ x # post) = x"
    by (intro max_from_first) auto
  with Cons show ?thesis by (simp add: py_max_def)
qed

lemma py_max_mem: "py_max key xs = Inr r \<Longrightarrow> r \<in> set xs"
  using max_from_mem[of key] by (cases xs) (auto simp: py_max_def)

lemma py_max_ge: "py_max key xs = Inr r \<Longrightarrow> x \<in> set xs \<Longrightarrow> key x \<le> key r"
proof (cases xs)
  case Nil
  assume "x \<in> set xs" with Nil show ?thesis by simp
next
  case (Cons y ys)
  assume r: "py_max key xs = Inr r" and x: "x \<in> set xs"
  from r Cons have r': "r = max_from key y ys" by (simp add: py_max_def)
  from x Cons have "x = y \<or> x \<in> set ys" by simp
  then show ?thesis
    using max_from_ge_start[of key y ys] max_from_ge_rest[of x ys key y] r' by auto
qed

lemma deque_append_maxlen: "maxlen (deque_append d x) = maxlen d"
  by (simp add: deque_append_def Let_def)

lemma deque_append_items:
  "items (deque_append d x) =
     (if length (items d) < maxlen d then items d @ [x] else tl (items d @ [x]))"
  by (simp add: deque_append_def Let_def)

lemma deque_append_length:
  "length (items d) \<le> maxlen d \<Longrightarrow> length (items (deque_append d x)) \<le> maxlen d"
  by (simp add: deque_append_items)

lemma deque_append_drop:
  assumes "length (items d) \<le> maxlen d"
  shows "items (deque_append d x) = drop (Suc (length (items d)) - maxlen d) (items d @ [x])"
proof (cases "length (items d) < maxlen d")
  case True
  then show ?thesis by (simp add: deque_append_items)
next
  case False
  with assms have "length (items d) = maxlen d" by simp
  then show ?thesis by (cases "items d") (auto simp add: deque_append_items)
qed

lemma foldl_deque_append_maxlen: "maxlen (foldl deque_append d xs) = maxlen d"
  by (induction xs arbitrary: d) (simp_all add: deque_append_maxlen)

lemma foldl_deque_append_length:
  "length (items d) \<le> maxlen d \<Longrightarrow> length (items (foldl deque_append d xs)) \<le> maxlen d"
proof (induction xs arbitrary: d)
  case Nil
  then show ?case by simp
next
  case (Cons x xs)
  have "length (items (foldl deque_append (deque_append d x) xs)) \<le> maxlen (deque_append d x)"
    using Cons.prems by (intro Cons.IH) (simp add: deque_append_length deque_append_maxlen)
  then show ?case by (simp add: deque_append_maxlen)
qed

lemma foldl_deque_append_drop:
  "length (items d) \<le> maxlen d \<Longrightarrow>
   items (foldl deque_append d xs) = drop (length (items d) + length xs - maxlen d) (items d @ xs)"
proof (induction xs arbitrary: d)
  case Nil
  then show ?case by simp
next
  case (Cons x xs)
  let ?d = "deque_append d x"
  have len: "length (items ?d) \<le> maxlen ?d"
    using Cons.prems by (simp add: deque_append_length deque_append_maxlen)
  have it: "items ?d = drop (Suc (length (items d)) - maxlen d) (items d @ [x])"
    using Cons.prems by (rule deque_append_drop)
  have "items (foldl deque_append ?d xs)
          = drop (length (items ?d) + length xs - maxlen ?d) (items ?d @ xs)"
    using len by (rule Cons.IH)
  also have "\<dots> = drop (length (items d) + length (x # xs) - maxlen d) (items d @ x # xs)"
  proof (cases "length (items d) < maxlen d")
    case True
    then show ?thesis by (simp add: it deque_append_maxlen)
  next
    case False
    with Cons.prems have eq: "length (items d) = maxlen d" by simp
    have "items ?d = drop 1 (items d @ [x])"
      using eq by (simp add: it)
    then have "items ?d @ xs = drop 1 (items d @ x # xs)"
      by (cases "items d") simp_all
    then have "drop (length xs) (items ?d @ xs) = drop (length xs) (drop 1 (items d @ x # xs))"
      by (rule arg_cong)
    then have "drop (length xs) (items ?d @ xs) = drop (Suc (length xs)) (items d @ x # xs)"
      by (simp only: drop_drop Suc_eq_plus1)
    moreover have "length (items ?d) + length xs - maxlen ?d = length xs"
      using eq by (simp add: it deque_append_maxlen)
    moreover have "length (items d) + length (x # xs) - maxlen d = Suc (length xs)"
      using eq by simp
    ultimately show ?thesis by (simp only:)
  qed
  finally show ?case by simp
qed

lemma dict_set_keys:
  "set (map fst (dict_set cs k v)) = insert k (set (map fst cs))"
proof (induction cs)
  case Nil
  show ?case by simp
next
  case (Cons p ps)
  obtain k' v' where p: "p = (k', v')" by (cases p)
  show ?case
  proof (cases "k' = k")
    case True
    with p show ?thesis by simp
  next
    case False
    have "set (map fst (dict_set (p # ps) k v)) = insert k' (set (map fst (dict_set ps k v)))"
      using p False by simp
    also have "\<dots> = insert k' (insert k (set (map fst ps)))"
      by (simp only: Cons.IH)
    also have "\<dots> = insert k (set (map fst (p # ps)))"
      using p by (simp add: insert_commute)
    finally show ?thesis .
  qed
qed

lemma dict_set_distinct:
  "distinct (map fst cs) \<Longrightarrow> distinct (map fst (dict_set cs k v))"
proof (induction cs)
  case Nil
  show ?case by simp
next
  case (Cons p ps)
  obtain k' v' where p: "p = (k', v')" by (cases p)
  show ?case
  proof (cases "k' = k")
    case True
    with Cons.prems p show ?thesis by simp
  next
    case False
    have "k' \<notin> set (map fst (dict_set ps k v))"
      using Cons.prems p False by (simp only: dict_set_keys) auto
    with Cons p False show ?thesis by simp
  qed
qed

lemma dict_get_set: "dict_get (dict_set cs k v) k' d = (if k' = k then v else dict_get cs k' d)"
  by (induction cs) auto

lemma dict_get_mem:
  "distinct (map fst cs) \<Longrightarrow> (k, v) \<in> set cs \<Longrightarrow> dict_get cs k d = v"
  by (induction cs) (auto simp: rev_image_eqI)

lemma dict_mem_get:
  "k \<in> set (map fst cs) \<Longrightarrow> (k, dict_get cs k d) \<in> set cs"
proof (induction cs)
  case Nil
  then show ?case by simp
next
  case (Cons p ps)
  obtain k' v' where p: "p = (k', v')" by (cases p)
  show ?case
  proof (cases "k' = k")
    case True
    with p show ?thesis by simp
  next
    case False
    with Cons.prems p have "k \<in> set (map fst ps)" by simp
    then have "(k, dict_get ps k d) \<in> set ps" by (rule Cons.IH)
    with p False show ?thesis by simp
  qed
qed

section \<open>The normalizer\<close>

lemma categorize_table: "categorize emotion_categories l ''neutral'' = spec_grouping l"
  by (simp add: emotion_categories_def spec_grouping_def)

text \<open>
  Claim C3. For a non-empty mapping of scores whose greatest score is strictly below
  the confidence threshold, \<^verbatim>\<open>get_dominant_emotion_category\<close> returns no category,
  whatever the labels are: \<^verbatim>\<open>None\<close> alone, or \<^verbatim>\<open>None\<close> with the greatest score as
  the confidence when the confidence is requested. The threshold is the field of the
  player, so the statement covers the default 0.3 and every other value.
\<close>

theorem low_confidence_gives_none:
  assumes "emotions \<noteq> []"
    and "Max (snd ` set emotions) < confidence_threshold self"
  shows "get_dominant_emotion_category self emotions True
           = Inr (CategoryConfidence None (Max (snd ` set emotions)))
       \<and> get_dominant_emotion_category self emotions False = Inr (Category None)"
proof -
  obtain l c where lc: "max_from snd (hd emotions) (tl emotions) = (l, c)"
    by (cases "max_from snd (hd emotions) (tl emotions)") auto
  have pm: "py_max snd emotions = Inr (l, c)"
    using assms(1) lc by (simp add: py_max_nonempty)
  have c: "c = Max (snd ` set emotions)"
    using assms(1) pm by (rule py_max_snd_Max)
  show ?thesis
    using assms c pm by (simp add: get_dominant_emotion_category_def)
qed

theorem low_confidence_gives_none_witness:
  "get_dominant_emotion_category (init_player Map.empty) [(''angry'', 1/5), (''happy'', 1/10)] True
           = Inr (CategoryConfidence None (1/5))
       \<and> get_dominant_emotion_category (init_player Map.empty) [(''angry'', 1/5), (''happy'', 1/10)] False = Inr (Category None)"
  using low_confidence_gives_none[of "[(''angry'', 1/5), (''happy'', 1/10)]" "init_player Map.empty"]
  by (simp add: init_player_def)

text \<open>
  Claim C4. For a non-empty mapping whose greatest score meets the threshold, the
  category returned is the one the specification's grouping table gives for the
  winning label, the first entry in iteration order that carries the greatest score
  (every entry before it is strictly smaller, every entry after it is no greater):
  happy for happy; sad for sad, fear and angry; neutral for neutral, surprise and
  disgust; neutral for any other label. The table is \<open>spec_grouping\<close>, written from
  the specification; the code's loop over \<open>emotion_categories\<close> agrees with it.
\<close>

theorem winning_label_grouped:
  assumes "emotions = pre @ (label, score) # post"
    and "\<forall>(l, c) \<in> set pre. c < score"
    and "\<forall>(l, c) \<in> set post. c \<le> score"
    and "confidence_threshold self \<le> score"
  shows "get_dominant_emotion_category self emotions True
           = Inr (CategoryConfidence (Some (spec_grouping label)) score)
       \<and> get_dominant_emotion_category self emotions False
           = Inr (Category (Some (spec_grouping label)))"
proof -
  have "py_max snd (pre @ (label, score) # post) = Inr (label, score)"
    using assms(2,3) by (intro py_max_first) auto
  then show ?thesis
    using assms(1,4) by (simp add: get_dominant_emotion_category_def categorize_table)
qed

theorem winning_label_grouped_witness:
  "get_dominant_emotion_category (init_player Map.empty) [(''happy'', 1/5), (''angry'', 1/2), (''fear'', 1/2)] True
           = Inr (CategoryConfidence (Some ''sad'') (1/2))
   \<and> get_dominant_emotion_category (init_player Map.empty) [(''happy'', 1/5), (''angry'', 1/2), (''fear'', 1/2)] False
           = Inr (Category (Some ''sad''))"
  using winning_label_grouped[of "[(''happy'', 1/5), (''angry'', 1/2), (''fear'', 1/2)]" "[(''happy'', 1/5)]" "''angry''" "1/2" "[(''fear'', 1/2)]" "init_player Map.empty"]
  by (simp add: init_player_def spec_grouping_def)

text \<open>
  Claim C10. On the empty mapping the normalizer returns \<^verbatim>\<open>None\<close>, and
  \<^verbatim>\<open>(None, 0.0)\<close> when the confidence is requested; and on every mapping it returns
  a result: no call raises.
\<close>

theorem empty_scores_none_and_total:
  "get_dominant_emotion_category self [] True = Inr (CategoryConfidence None 0)
   \<and> get_dominant_emotion_category self [] False = Inr (Category None)
   \<and> (\<forall>emotions return_confidence. \<exists>r.
         get_dominant_emotion_category self emotions return_confidence = Inr r)"
proof -
  have "\<exists>r. get_dominant_emotion_category self emotions return_confidence = Inr r"
    for emotions return_confidence
  proof (cases emotions)
    case Nil
    then show ?thesis by (simp add: get_dominant_emotion_category_def)
  next
    case (Cons x rest)
    then show ?thesis
      by (simp add: get_dominant_emotion_category_def py_max_def Let_def split: prod.split)
  qed
  then show ?thesis by (simp add: get_dominant_emotion_category_def)
qed

section \<open>The smoother\<close>

lemma count_emotions_keys:
  "set (map fst (count_emotions cs h)) = set (map fst cs) \<union> {e \<in> set h. e \<noteq> []}"
proof (induction h arbitrary: cs)
  case Nil
  show ?case by simp
next
  case (Cons e h)
  show ?case
  proof (cases "e = []")
    case True
    then show ?thesis using Cons.IH[of cs] by auto
  next
    case False
    then show ?thesis
      using Cons.IH[of "dict_set cs e (dict_get cs e 0 + 1)"]
      by (simp only: count_emotions.simps if_True dict_set_keys) auto
  qed
qed

lemma count_emotions_distinct:
  "distinct (map fst cs) \<Longrightarrow> distinct (map fst (count_emotions cs h))"
  by (induction h arbitrary: cs) (simp_all add: dict_set_distinct)

lemma count_emotions_get:
  "k \<noteq> [] \<Longrightarrow> dict_get (count_emotions cs h) k 0 = dict_get cs k 0 + count_list h k"
  by (induction h arbitrary: cs) (simp_all add: dict_get_set)

lemma smoothed_short:
  "length (items (emotion_history self)) < 3 \<Longrightarrow> get_smoothed_emotion self = Inr None"
  by (simp add: get_smoothed_emotion_def)

lemma smoothed_three_same:
  assumes "items d = []" and "3 \<le> maxlen d" and "c \<noteq> []"
  shows "get_smoothed_emotion (self\<lparr>emotion_history := foldl deque_append d [c, c, c]\<rparr>) = Inr (Some c)"
proof -
  have "items (foldl deque_append d [c, c, c]) = [c, c, c]"
    using assms(1,2) foldl_deque_append_drop[of d "[c, c, c]"] by simp
  then show ?thesis
    using assms(3) by (simp add: get_smoothed_emotion_def py_max_def)
qed

lemma smoothed_majority:
  assumes len: "3 \<le> length (items (emotion_history self))"
    and some: "\<exists>e \<in> set (items (emotion_history self)). e \<noteq> []"
  shows "\<exists>c. get_smoothed_emotion self = Inr (Some c)
           \<and> c \<in> set (items (emotion_history self)) \<and> c \<noteq> []
           \<and> (\<forall>e. e \<noteq> [] \<longrightarrow> count_list (items (emotion_history self)) e
                                  \<le> count_list (items (emotion_history self)) c)"
proof -
  let ?h = "items (emotion_history self)"
  let ?cs = "count_emotions [] ?h"
  have keys: "set (map fst ?cs) = {e \<in> set ?h. e \<noteq> []}"
    using count_emotions_keys[of "[]" ?h] by simp
  have dist: "distinct (map fst ?cs)"
    by (rule count_emotions_distinct) simp
  have get: "dict_get ?cs k 0 = count_list ?h k" if "k \<noteq> []" for k
    using count_emotions_get[OF that, of "[]" ?h] by simp
  from some keys have ne: "?cs \<noteq> []" by auto
  then obtain c n where pm: "py_max snd ?cs = Inr (c, n)"
    by (cases ?cs) (auto simp: py_max_def intro: prod.exhaust)
  have mem: "(c, n) \<in> set ?cs" using pm by (rule py_max_mem)
  then have "c \<in> set (map fst ?cs)" by (auto simp: rev_image_eqI)
  with keys have c: "c \<in> set ?h" "c \<noteq> []" by auto
  have n: "n = count_list ?h c"
    using dict_get_mem[OF dist mem, of 0] get[OF c(2)] by simp
  have best: "count_list ?h e \<le> count_list ?h c" if e: "e \<noteq> []" for e
  proof (cases "e \<in> set ?h")
    case True
    with e keys have "e \<in> set (map fst ?cs)" by simp
    then have "(e, dict_get ?cs e 0) \<in> set ?cs" by (rule dict_mem_get)
    then have "snd (e, dict_get ?cs e 0) \<le> snd (c, n)" by (rule py_max_ge[OF pm])
    then show ?thesis using get[OF e] n by simp
  next
    case False
    then show ?thesis by (simp add: count_list_0_iff)
  qed
  have "get_smoothed_emotion self = Inr (Some c)"
    using len ne pm by (simp add: get_smoothed_emotion_def)
  with c best show ?thesis by blast
qed

text \<open>
  Claim C2. With fewer than three entries in the history the smoother returns
  \<^verbatim>\<open>None\<close>; after exactly three pushes of one category onto an empty history (of
  capacity at least three) it returns that category; and in general, with three or
  more entries, it returns a category of the history that no other category
  outnumbers. Categories are non-empty strings: the loop of the source skips falsy
  entries, and \<^verbatim>\<open>run\<close> pushes none.
\<close>

theorem smoothed_emotion_majority:
  "(length (items (emotion_history self)) < 3 \<longrightarrow> get_smoothed_emotion self = Inr None)
   \<and> (items d = [] \<and> 3 \<le> maxlen d \<and> c \<noteq> [] \<longrightarrow>
        get_smoothed_emotion (self\<lparr>emotion_history := foldl deque_append d [c, c, c]\<rparr>)
          = Inr (Some c))
   \<and> (3 \<le> length (items (emotion_history self))
        \<and> (\<exists>e \<in> set (items (emotion_history self)). e \<noteq> []) \<longrightarrow>
        (\<exists>m. get_smoothed_emotion self = Inr (Some m)
            \<and> m \<in> set (items (emotion_history self)) \<and> m \<noteq> []
            \<and> (\<forall>e. e \<noteq> [] \<longrightarrow> count_list (items (emotion_history self)) e
                                   \<le> count_list (items (emotion_history self)) m)))"
proof (intro conjI impI)
  assume "length (items (emotion_history self)) < 3"
  then show "get_smoothed_emotion self = Inr None" by (rule smoothed_short)
next
  assume "items d = [] \<and> 3 \<le> maxlen d \<and> c \<noteq> []"
  then show "get_smoothed_emotion (self\<lparr>emotion_history := foldl deque_append d [c, c, c]\<rparr>)
          = Inr (Some c)"
    by (intro smoothed_three_same) simp_all
next
  assume "3 \<le> length (items (emotion_history self))
        \<and> (\<exists>e \<in> set (items (emotion_history self)). e \<noteq> [])"
  then show "\<exists>m. get_smoothed_emotion self = Inr (Some m)
            \<and> m \<in> set (items (emotion_history self)) \<and> m \<noteq> []
            \<and> (\<forall>e. e \<noteq> [] \<longrightarrow> count_list (items (emotion_history self)) e
                                   \<le> count_list (items (emotion_history self)) m)"
    by (intro smoothed_majority) simp_all
qed

theorem smoothed_emotion_majority_witness:
  "length (items (emotion_history (init_player sample_catalogue))) < 3
   \<and> get_smoothed_emotion (init_player sample_catalogue) = Inr None
   \<and> items (deque_new 10 :: string deque) = [] \<and> 3 \<le> maxlen (deque_new 10 :: string deque)
   \<and> ''happy'' \<noteq> []
   \<and> get_smoothed_emotion ((init_player sample_catalogue)
         \<lparr>emotion_history := foldl deque_append (deque_new 10) [''happy'', ''happy'', ''happy'']\<rparr>)
       = Inr (Some ''happy'')
   \<and> 3 \<le> length (items (emotion_history ((init_player sample_catalogue)
         \<lparr>emotion_history := \<lparr>maxlen = 10, items = [''sad'', ''happy'', ''sad'', ''neutral'']\<rparr>\<rparr>)))
   \<and> get_smoothed_emotion ((init_player sample_catalogue)
         \<lparr>emotion_history := \<lparr>maxlen = 10, items = [''sad'', ''happy'', ''sad'', ''neutral'']\<rparr>\<rparr>)
       = Inr (Some ''sad'')"
proof -
  let ?p = "init_player sample_catalogue"
  let ?q = "?p\<lparr>emotion_history := \<lparr>maxlen = 10, items = [''sad'', ''happy'', ''sad'', ''neutral'']\<rparr>\<rparr>"
  have h1: "length (items (emotion_history ?p)) < 3"
    by (simp add: init_player_def deque_new_def)
  have h2: "items (deque_new 10 :: string deque) = [] \<and> 3 \<le> maxlen (deque_new 10 :: string deque)
      \<and> ''happy'' \<noteq> []"
    by (simp add: deque_new_def)
  have h3: "3 \<le> length (items (emotion_history ?q)) \<and> (\<exists>e \<in> set (items (emotion_history ?q)). e \<noteq> [])"
    by simp
  have c1: "get_smoothed_emotion ?p = Inr None"
    using smoothed_emotion_majority[where self = ?p] h1 by blast
  have c2: "get_smoothed_emotion (?p\<lparr>emotion_history := foldl deque_append (deque_new 10) [''happy'', ''happy'', ''happy'']\<rparr>)
       = Inr (Some ''happy'')"
    using smoothed_emotion_majority[where self = ?p and d = "deque_new 10" and c = "''happy''"] h2 by blast
  from smoothed_emotion_majority[where self = ?q] h3
  obtain m where m: "get_smoothed_emotion ?q = Inr (Some m)"
    and mem: "m \<in> set (items (emotion_history ?q))"
    and best: "\<forall>e. e \<noteq> [] \<longrightarrow> count_list (items (emotion_history ?q)) e
                                   \<le> count_list (items (emotion_history ?q)) m"
    by blast
  from mem have "m = ''sad'' \<or> m = ''happy'' \<or> m = ''neutral''" by auto
  moreover have "m \<noteq> ''happy''" using best[rule_format, of "''sad''"] by auto
  moreover have "m \<noteq> ''neutral''" using best[rule_format, of "''sad''"] by auto
  ultimately have "m = ''sad''" by blast
  with m have c3: "get_smoothed_emotion ?q = Inr (Some ''sad'')" by simp
  from h1 c1 h2 c2 h3 c3 show ?thesis by simp
qed

section \<open>The playback selector\<close>

lemma load_and_play_cases:
  "load_and_play env emotion song s =
     (case load_error env of
        Some msg \<Rightarrow> Inl (MixerError msg, s\<lparr>mixer_calls := mixer_calls s @ [MusicLoad song]\<rparr>)
      | None \<Rightarrow>
          (case play_error env of
             Some msg \<Rightarrow> Inl (MixerError msg, s\<lparr>mixer_calls := mixer_calls s @ [MusicLoad song, MusicPlay]\<rparr>)
           | None \<Rightarrow> Inr (s\<lparr>mixer_calls := mixer_calls s @ [MusicLoad song, MusicPlay],
                              current_song := Some song,
                              printed := printed s @ [NowPlaying emotion (basename song)]\<rparr>)))"
  by (simp add: load_and_play_def Let_def split: option.splits)

lemma play_song_empty:
  "songs s emotion = None \<or> songs s emotion = Some [] \<Longrightarrow>
   play_song_for_emotion env emotion s
     = Inr (None, s\<lparr>printed := printed s @ [NoSongsAvailable emotion]\<rparr>)"
  by (auto simp: play_song_for_emotion_def)

lemma play_song_nonempty:
  assumes "songs s emotion = Some tracks" and "tracks \<noteq> []"
  shows "play_song_for_emotion env emotion s =
     (let song = tracks ! (random_pick env mod length tracks) in
      case load_error env of
        Some msg \<Rightarrow> Inr (None, s\<lparr>mixer_calls := mixer_calls s @ [MusicStop, MusicLoad song],
                                  printed := printed s @ [ErrorPlayingSong (MixerError msg)]\<rparr>)
      | None \<Rightarrow>
          (case play_error env of
             Some msg \<Rightarrow> Inr (None, s\<lparr>mixer_calls := mixer_calls s @ [MusicStop, MusicLoad song, MusicPlay],
                                  printed := printed s @ [ErrorPlayingSong (MixerError msg)]\<rparr>)
           | None \<Rightarrow> Inr (None, s\<lparr>mixer_calls := mixer_calls s @ [MusicStop, MusicLoad song, MusicPlay],
                              current_song := Some song,
                              printed := printed s @ [NowPlaying emotion (basename song)]\<rparr>)))"
  using assms
  by (simp add: play_song_for_emotion_def load_and_play_cases Let_def split: option.splits)

lemma play_song_total: "\<exists>s'. play_song_for_emotion env emotion s = Inr (None, s')"
proof (cases "songs s emotion = None \<or> songs s emotion = Some []")
  case True
  then show ?thesis by (simp add: play_song_empty)
next
  case False
  then obtain tracks where "songs s emotion = Some tracks" "tracks \<noteq> []" by auto
  then show ?thesis by (simp add: play_song_nonempty Let_def split: option.splits)
qed

lemma play_song_frame:
  assumes "play_song_for_emotion env emotion s = Inr (r, s')"
  shows "s' = s\<lparr>current_song := current_song s', mixer_calls := mixer_calls s',
                 printed := printed s'\<rparr>"
proof (cases "songs s emotion = None \<or> songs s emotion = Some []")
  case True
  with assms show ?thesis by (auto simp add: play_song_empty)
next
  case False
  then obtain tracks where "songs s emotion = Some tracks" "tracks \<noteq> []" by auto
  with assms show ?thesis by (auto simp add: play_song_nonempty Let_def split: option.splits)
qed

lemma play_song_polls:
  assumes "play_song_for_emotion env emotion s = Inr (r, s')"
  shows "count_list (mixer_calls s') MusicGetBusy = count_list (mixer_calls s) MusicGetBusy"
proof (cases "songs s emotion = None \<or> songs s emotion = Some []")
  case True
  with assms show ?thesis by (auto simp add: play_song_empty)
next
  case False
  then obtain tracks where "songs s emotion = Some tracks" "tracks \<noteq> []" by auto
  with assms show ?thesis by (auto simp add: play_song_nonempty Let_def split: option.splits)
qed

lemma play_song_fields:
  assumes "play_song_for_emotion env emotion s = Inr (r, s')"
  shows "current_emotion s' = current_emotion s"
    and "pending_emotion s' = pending_emotion s"
    and "pending_emotion_time s' = pending_emotion_time s"
    and "emotion_stability_threshold s' = emotion_stability_threshold s"
    and "emotion_history s' = emotion_history s"
    and "detection_frequency s' = detection_frequency s"
    and "confidence_threshold s' = confidence_threshold s"
    and "songs s' = songs s"
    and "frame_count s' = frame_count s"
proof -
  note eq = play_song_frame[OF assms]
  show "current_emotion s' = current_emotion s" by (subst eq) simp
  show "pending_emotion s' = pending_emotion s" by (subst eq) simp
  show "pending_emotion_time s' = pending_emotion_time s" by (subst eq) simp
  show "emotion_stability_threshold s' = emotion_stability_threshold s" by (subst eq) simp
  show "emotion_history s' = emotion_history s" by (subst eq) simp
  show "detection_frequency s' = detection_frequency s" by (subst eq) simp
  show "confidence_threshold s' = confidence_threshold s" by (subst eq) simp
  show "songs s' = songs s" by (subst eq) simp
  show "frame_count s' = frame_count s" by (subst eq) simp
qed

text \<open>
  Claim C7. When the catalogue has no entry for the mood, or an empty list,
  \<^verbatim>\<open>play_song_for_emotion\<close> returns \<^verbatim>\<open>None\<close> and changes nothing but the output, to
  which it adds the warning: \<^verbatim>\<open>current_song\<close> and the calls made to the mixer stay as
  they were. When the list is not empty, the track it selects is a member of that
  list: it is the track passed to \<^verbatim>\<open>music.load\<close> after \<^verbatim>\<open>music.stop\<close>, and the value
  of \<^verbatim>\<open>current_song\<close> whenever that field changes.
\<close>

theorem playback_selector_selection:
  "(songs self emotion = None \<or> songs self emotion = Some [] \<longrightarrow>
      play_song_for_emotion env emotion self
        = Inr (None, self\<lparr>printed := printed self @ [NoSongsAvailable emotion]\<rparr>))
   \<and> (songs self emotion = Some tracks \<and> tracks \<noteq> [] \<longrightarrow>
      (\<exists>song s'. song \<in> set tracks
          \<and> play_song_for_emotion env emotion self = Inr (None, s')
          \<and> take (length (mixer_calls self) + 2) (mixer_calls s')
              = mixer_calls self @ [MusicStop, MusicLoad song]
          \<and> (current_song s' = Some song \<or> current_song s' = current_song self)
          \<and> (load_error env = None \<and> play_error env = None \<longrightarrow> current_song s' = Some song)))"
proof (intro conjI impI)
  assume "songs self emotion = None \<or> songs self emotion = Some []"
  then show "play_song_for_emotion env emotion self
        = Inr (None, self\<lparr>printed := printed self @ [NoSongsAvailable emotion]\<rparr>)"
    by (rule play_song_empty)
next
  assume a: "songs self emotion = Some tracks \<and> tracks \<noteq> []"
  let ?song = "tracks ! (random_pick env mod length tracks)"
  from a have "random_pick env mod length tracks < length tracks" by simp
  then have mem: "?song \<in> set tracks" by (rule nth_mem)
  obtain s' where s': "play_song_for_emotion env emotion self = Inr (None, s')"
    using play_song_total by blast
  have calls: "take (length (mixer_calls self) + 2) (mixer_calls s')
              = mixer_calls self @ [MusicStop, MusicLoad ?song]"
    using s' a by (auto simp add: play_song_nonempty Let_def split: option.splits)
  have cur: "current_song s' = Some ?song \<or> current_song s' = current_song self"
    using s' a by (auto simp add: play_song_nonempty Let_def split: option.splits)
  have ok: "load_error env = None \<and> play_error env = None \<longrightarrow> current_song s' = Some ?song"
    using s' a by (auto simp add: play_song_nonempty Let_def split: option.splits)
  from mem s' calls cur ok
  show "\<exists>song s'. song \<in> set tracks
          \<and> play_song_for_emotion env emotion self = Inr (None, s')
          \<and> take (length (mixer_calls self) + 2) (mixer_calls s')
              = mixer_calls self @ [MusicStop, MusicLoad song]
          \<and> (current_song s' = Some song \<or> current_song s' = current_song self)
          \<and> (load_error env = None \<and> play_error env = None \<longrightarrow> current_song s' = Some song)"
    by blast
qed

theorem playback_selector_selection_witness:
  "(songs (init_player sample_catalogue) ''neutral'' = None
      \<or> songs (init_player sample_catalogue) ''neutral'' = Some [])
   \<and> play_song_for_emotion quiet_env ''neutral'' (init_player sample_catalogue)
        = Inr (None, (init_player sample_catalogue)
                       \<lparr>printed := printed (init_player sample_catalogue) @ [NoSongsAvailable ''neutral'']\<rparr>)
   \<and> songs (init_player sample_catalogue) ''happy'' = Some [''songs/happy/a.mp3'', ''songs/happy/b.mp3'']
   \<and> [''songs/happy/a.mp3'', ''songs/happy/b.mp3''] \<noteq> []
   \<and> (\<exists>song s'. song \<in> set [''songs/happy/a.mp3'', ''songs/happy/b.mp3'']
          \<and> play_song_for_emotion (quiet_env\<lparr>random_pick := 1\<rparr>) ''happy'' (init_player sample_catalogue)
              = Inr (None, s')
          \<and> take (length (mixer_calls (init_player sample_catalogue)) + 2) (mixer_calls s')
              = mixer_calls (init_player sample_catalogue) @ [MusicStop, MusicLoad song]
          \<and> current_song s' = Some song)"
proof -
  let ?p = "init_player sample_catalogue"
  let ?e = "quiet_env\<lparr>random_pick := 1\<rparr>"
  let ?tracks = "[''songs/happy/a.mp3'', ''songs/happy/b.mp3'']"
  have n: "songs ?p ''neutral'' = None \<or> songs ?p ''neutral'' = Some []"
    by (simp add: init_player_def sample_catalogue_def)
  have h: "songs ?p ''happy'' = Some ?tracks \<and> ?tracks \<noteq> []"
    by (simp add: init_player_def sample_catalogue_def)
  have e: "load_error ?e = None \<and> play_error ?e = None"
    by (simp add: quiet_env_def)
  have 1: "play_song_for_emotion quiet_env ''neutral'' ?p
        = Inr (None, ?p\<lparr>printed := printed ?p @ [NoSongsAvailable ''neutral'']\<rparr>)"
    using playback_selector_selection[of ?p "''neutral''" quiet_env] n by blast
  have 2: "\<exists>song s'. song \<in> set ?tracks
          \<and> play_song_for_emotion ?e ''happy'' ?p = Inr (None, s')
          \<and> take (length (mixer_calls ?p) + 2) (mixer_calls s')
              = mixer_calls ?p @ [MusicStop, MusicLoad song]
          \<and> current_song s' = Some song"
    using playback_selector_selection[of ?p "''happy''" ?e ?tracks] h e by blast
  from n 1 h 2 show ?thesis by blast
qed

text \<open>
  Claim C8, as stated, fails: after a failed load \<^verbatim>\<open>current_song\<close> is not unset, it
  still names the track that was started before. A new player plays
  \<^verbatim>\<open>songs/happy/a.mp3\<close>; the next selection draws \<^verbatim>\<open>songs/happy/b.mp3\<close>, whose load
  raises; the mixer has been stopped, and \<^verbatim>\<open>current_song\<close> is still
  \<^verbatim>\<open>songs/happy/a.mp3\<close>.
\<close>

theorem failed_playback_not_unset_counterexample:
  "(case play_song_for_emotion quiet_env ''happy'' (init_player sample_catalogue) of
      Inl e \<Rightarrow> False
    | Inr (r1, s1) \<Rightarrow>
        current_song s1 = Some ''songs/happy/a.mp3''
        \<and> (case play_song_for_emotion (quiet_env\<lparr>random_pick := 1, load_error := Some ''unreadable''\<rparr>)
                  ''happy'' s1 of
              Inl e \<Rightarrow> False
            | Inr (r2, s2) \<Rightarrow>
                current_song s2 = Some ''songs/happy/a.mp3''
                \<and> current_song s2 \<noteq> None
                \<and> mixer_calls s2 = [MusicStop, MusicLoad ''songs/happy/a.mp3'', MusicPlay,
                                     MusicStop, MusicLoad ''songs/happy/b.mp3'']))"
  by (simp add: play_song_for_emotion_def load_and_play_def init_player_def
      sample_catalogue_def quiet_env_def Let_def)

text \<open>
  Claim C8, amended. When \<^verbatim>\<open>music.load\<close> or \<^verbatim>\<open>music.play\<close> raises during
  \<^verbatim>\<open>play_song_for_emotion\<close>, the failure is printed, \<^verbatim>\<open>current_song\<close> keeps the value it
  had before the call (it is not assigned the new track, and is unset only if it was
  unset before), and the function returns normally: the exception does not leave it.
\<close>

theorem failed_playback_keeps_current_song:
  assumes "songs self emotion = Some tracks" and "tracks \<noteq> []"
    and "load_error env \<noteq> None \<or> play_error env \<noteq> None"
  shows "\<exists>msg s'. play_song_for_emotion env emotion self = Inr (None, s')
           \<and> (load_error env = Some msg \<or> load_error env = None \<and> play_error env = Some msg)
           \<and> printed s' = printed self @ [ErrorPlayingSong (MixerError msg)]
           \<and> current_song s' = current_song self"
  using assms by (auto simp add: play_song_nonempty Let_def split: option.splits)

theorem failed_playback_keeps_current_song_witness:
  "songs (init_player sample_catalogue) ''sad'' = Some [''songs/sad/c.mp3'']
   \<and> [''songs/sad/c.mp3''] \<noteq> []
   \<and> load_error (quiet_env\<lparr>load_error := Some ''unreadable''\<rparr>) \<noteq> None
   \<and> (\<exists>msg s'. play_song_for_emotion (quiet_env\<lparr>load_error := Some ''unreadable''\<rparr>) ''sad''
                 (init_player sample_catalogue) = Inr (None, s')
           \<and> printed s' = printed (init_player sample_catalogue) @ [ErrorPlayingSong (MixerError msg)]
           \<and> current_song s' = current_song (init_player sample_catalogue))"
proof -
  let ?p = "init_player sample_catalogue"
  let ?e = "quiet_env\<lparr>load_error := Some ''unreadable''\<rparr>"
  have s: "songs ?p ''sad'' = Some [''songs/sad/c.mp3'']"
    by (simp add: init_player_def sample_catalogue_def)
  have t: "[''songs/sad/c.mp3''] \<noteq> []" by simp
  have l: "load_error ?e \<noteq> None" by simp
  from l have l': "load_error ?e \<noteq> None \<or> play_error ?e \<noteq> None" by (rule disjI1)
  from failed_playback_keeps_current_song[OF s t l'] s t l show ?thesis by blast
qed

section \<open>The stability gate\<close>

lemma gate_start:
  assumes "truthy sm" and "sm \<noteq> current_emotion s" and "pending_emotion s \<noteq> sm"
  shows "stability_gate env sm s
           = Inr (s\<lparr>pending_emotion := sm, pending_emotion_time := Some (clock env)\<rparr>)"
  using assms by (simp add: stability_gate_def)

lemma gate_wait:
  assumes "truthy sm" and "sm \<noteq> current_emotion s" and "pending_emotion s = sm"
    and "pending_emotion_time s = Some since"
    and "clock env - since < emotion_stability_threshold s"
  shows "stability_gate env sm s = Inr s"
  using assms by (simp add: stability_gate_def)

lemma gate_commit:
  assumes "truthy sm" and "sm \<noteq> current_emotion s" and "pending_emotion s = sm"
    and "pending_emotion_time s = Some since"
    and "emotion_stability_threshold s \<le> clock env - since"
  shows "\<exists>s1. play_song_for_emotion env (the sm) (s\<lparr>current_emotion := sm\<rparr>) = Inr (None, s1)
            \<and> stability_gate env sm s = Inr (s1\<lparr>pending_emotion := None\<rparr>)"
proof -
  obtain s1 where s1: "play_song_for_emotion env (the sm) (s\<lparr>current_emotion := sm\<rparr>) = Inr (None, s1)"
    using play_song_total by blast
  with assms have "stability_gate env sm s = Inr (s1\<lparr>pending_emotion := None\<rparr>)"
    by (simp add: stability_gate_def)
  with s1 show ?thesis by blast
qed

lemma gate_same_idle:
  assumes "sm = current_emotion s" and "\<not> get_busy env" and "truthy (current_emotion s)"
  shows "\<exists>s1. play_song_for_emotion env (the (current_emotion s))
                 (s\<lparr>pending_emotion := None, mixer_calls := mixer_calls s @ [MusicGetBusy]\<rparr>)
               = Inr (None, s1)
            \<and> stability_gate env sm s = Inr s1"
proof -
  let ?s2 = "s\<lparr>pending_emotion := None, mixer_calls := mixer_calls s @ [MusicGetBusy]\<rparr>"
  obtain s1 where s1: "play_song_for_emotion env (the (current_emotion s)) ?s2 = Inr (None, s1)"
    using play_song_total by blast
  have "\<not> (truthy sm \<and> sm \<noteq> current_emotion s)" using assms(1) by simp
  with assms s1 have "stability_gate env sm s = Inr s1"
    by (simp add: stability_gate_def Let_def)
  with s1 show ?thesis by blast
qed

lemma gate_same_busy:
  assumes "sm = current_emotion s" and "get_busy env \<or> \<not> truthy (current_emotion s)"
  shows "stability_gate env sm s
           = Inr (s\<lparr>pending_emotion := None, mixer_calls := mixer_calls s @ [MusicGetBusy]\<rparr>)"
  using assms by (auto simp add: stability_gate_def Let_def)

lemma gate_ignore:
  assumes "\<not> truthy sm" and "sm \<noteq> current_emotion s"
  shows "stability_gate env sm s = Inr s"
  using assms by (simp add: stability_gate_def)

lemma gate_cases:
  assumes "stability_gate env sm s = Inr s'"
  obtains
    (start) "truthy sm" "sm \<noteq> current_emotion s" "pending_emotion s \<noteq> sm"
      "s' = s\<lparr>pending_emotion := sm, pending_emotion_time := Some (clock env)\<rparr>"
  | (wait) since where "truthy sm" "sm \<noteq> current_emotion s" "pending_emotion s = sm"
      "pending_emotion_time s = Some since" "clock env - since < emotion_stability_threshold s"
      "s' = s"
  | (commit) since s1 where "truthy sm" "sm \<noteq> current_emotion s" "pending_emotion s = sm"
      "pending_emotion_time s = Some since" "emotion_stability_threshold s \<le> clock env - since"
      "play_song_for_emotion env (the sm) (s\<lparr>current_emotion := sm\<rparr>) = Inr (None, s1)"
      "s' = s1\<lparr>pending_emotion := None\<rparr>"
  | (replay) s1 where "sm = current_emotion s" "\<not> get_busy env" "truthy (current_emotion s)"
      "play_song_for_emotion env (the (current_emotion s))
          (s\<lparr>pending_emotion := None, mixer_calls := mixer_calls s @ [MusicGetBusy]\<rparr>) = Inr (None, s1)"
      "s' = s1"
  | (same) "sm = current_emotion s" "get_busy env \<or> \<not> truthy (current_emotion s)"
      "s' = s\<lparr>pending_emotion := None, mixer_calls := mixer_calls s @ [MusicGetBusy]\<rparr>"
  | (ignore) "\<not> truthy sm" "sm \<noteq> current_emotion s" "s' = s"
proof (cases "sm = current_emotion s")
  case True
  show ?thesis
  proof (cases "\<not> get_busy env \<and> truthy (current_emotion s)")
    case True
    with \<open>sm = current_emotion s\<close> gate_same_idle[of sm s env] assms replay show ?thesis by auto
  next
    case False
    with \<open>sm = current_emotion s\<close> gate_same_busy[of sm s env] assms same show ?thesis by auto
  qed
next
  case neq: False
  show ?thesis
  proof (cases "truthy sm")
    case False
    with neq gate_ignore[of sm s env] assms ignore show ?thesis by auto
  next
    case t: True
    show ?thesis
    proof (cases "pending_emotion s = sm")
      case False
      with t neq gate_start[of sm s env] assms start show ?thesis by auto
    next
      case p: True
      show ?thesis
      proof (cases "pending_emotion_time s")
        case None
        with t neq p assms show ?thesis by (simp add: stability_gate_def)
      next
        case (Some since)
        show ?thesis
        proof (cases "clock env - since < emotion_stability_threshold s")
          case True
          with t neq p Some gate_wait[of sm s since env] assms wait show ?thesis by auto
        next
          case False
          then have "emotion_stability_threshold s \<le> clock env - since" by simp
          with t neq p Some gate_commit[of sm s since env] assms commit show ?thesis by auto
        qed
      qed
    qed
  qed
qed

lemma gate_frames_append:
  "gate_frames (xs @ ys) s =
     (case gate_frames xs s of Inl e \<Rightarrow> Inl e | Inr s1 \<Rightarrow> gate_frames ys s1)"
  by (induction xs arbitrary: s) (auto split: sum.splits)

lemma gate_frames_snoc:
  assumes "gate_frames (fs @ [(sm, env)]) s = Inr s2"
  obtains s1 where "gate_frames fs s = Inr s1" and "stability_gate env sm s1 = Inr s2"
  using assms by (auto simp add: gate_frames_append split: sum.splits)

lemma gate_threshold:
  assumes "stability_gate env sm s = Inr s'"
  shows "emotion_stability_threshold s' = emotion_stability_threshold s"
  using assms
proof (cases rule: gate_cases)
  case (commit since s1)
  then show ?thesis using play_song_fields(4)[OF commit(6)] by simp
next
  case (replay s1)
  then show ?thesis using play_song_fields(4)[OF replay(4)] by simp
qed simp_all

lemma gate_frames_threshold:
  "gate_frames fs s = Inr s' \<Longrightarrow> emotion_stability_threshold s' = emotion_stability_threshold s"
proof (induction fs arbitrary: s)
  case Nil
  then show ?case by simp
next
  case (Cons f fs)
  obtain sm env where f: "f = (sm, env)" by (cases f)
  from Cons.prems f obtain s1 where s1: "stability_gate env sm s = Inr s1" "gate_frames fs s1 = Inr s'"
    by (auto split: sum.splits)
  from Cons.IH[OF s1(2)] gate_threshold[OF s1(1)] show ?case by simp
qed

lemma gate_waiting_frames:
  assumes "c \<noteq> []" and "current_emotion s \<noteq> Some c" and "pending_emotion s = Some c"
    and "pending_emotion_time s = Some since"
    and "\<forall>env \<in> set envs. clock env - since < emotion_stability_threshold s"
  shows "gate_frames (map (Pair (Some c)) envs) s = Inr s"
  using assms(5)
proof (induction envs)
  case Nil
  show ?case by simp
next
  case (Cons env envs)
  have "stability_gate env (Some c) s = Inr s"
    using assms(1-4) Cons.prems by (intro gate_wait[where since = since]) auto
  with Cons show ?case by simp
qed

lemma gate_commit_step:
  assumes "stability_gate env sm s = Inr s'" and "current_emotion s' \<noteq> current_emotion s"
  shows "truthy sm \<and> pending_emotion s = sm \<and> current_emotion s' = sm \<and> pending_emotion s' = None
         \<and> (\<exists>since. pending_emotion_time s = Some since
                \<and> emotion_stability_threshold s \<le> clock env - since)"
  using assms(1)
proof (cases rule: gate_cases)
  case (commit since s1)
  then show ?thesis using play_song_fields(1)[OF commit(6)] by simp
next
  case (replay s1)
  then show ?thesis using play_song_fields(1)[OF replay(4)] assms(2) by simp
qed (use assms(2) in simp_all)

lemma gate_pending_step:
  assumes "stability_gate env sm s = Inr s'" and "pending_emotion s' = Some p"
  shows "(sm = Some p \<and> pending_emotion_time s' = Some (clock env))
       \<or> (pending_emotion s = Some p \<and> pending_emotion_time s' = pending_emotion_time s
            \<and> (sm = Some p \<or> \<not> truthy sm))"
  using assms(1)
proof (cases rule: gate_cases)
  case (commit since s1)
  then show ?thesis using assms(2) by simp
next
  case (replay s1)
  then show ?thesis using play_song_fields(2)[OF replay(4)] assms(2) by simp
qed (use assms(2) in auto)

lemma pending_block:
  assumes "pending_emotion s = None" and "gate_frames fs s = Inr s1"
    and "pending_emotion s1 = Some p"
  shows "\<exists>pre envp mid. fs = pre @ (Some p, envp) # mid
           \<and> (\<forall>sm' \<in> set (map fst mid). sm' = Some p \<or> \<not> truthy sm')
           \<and> pending_emotion_time s1 = Some (clock envp)"
  using assms(2,3)
proof (induction fs arbitrary: s1 rule: rev_induct)
  case Nil
  with assms(1) show ?case by simp
next
  case (snoc f fs)
  obtain sm env where f: "f = (sm, env)" by (cases f)
  from snoc.prems(1) f obtain s0 where s0: "gate_frames fs s = Inr s0"
    and step: "stability_gate env sm s0 = Inr s1"
    by (auto elim: gate_frames_snoc)
  from gate_pending_step[OF step snoc.prems(2)]
  show ?case
  proof
    assume a: "sm = Some p \<and> pending_emotion_time s1 = Some (clock env)"
    show ?thesis
    proof (intro exI conjI)
      show "fs @ [f] = fs @ (Some p, env) # []" using a f by simp
      show "\<forall>sm' \<in> set (map fst []). sm' = Some p \<or> \<not> truthy sm'" by simp
      show "pending_emotion_time s1 = Some (clock env)" using a by simp
    qed
  next
    assume a: "pending_emotion s0 = Some p \<and> pending_emotion_time s1 = pending_emotion_time s0
            \<and> (sm = Some p \<or> \<not> truthy sm)"
    then have p0: "pending_emotion s0 = Some p" by simp
    from snoc.IH[OF s0 p0] obtain pre where
      "\<exists>envp mid. fs = pre @ (Some p, envp) # mid
           \<and> (\<forall>sm' \<in> set (map fst mid). sm' = Some p \<or> \<not> truthy sm')
           \<and> pending_emotion_time s0 = Some (clock envp)" ..
    then obtain envp where
      "\<exists>mid. fs = pre @ (Some p, envp) # mid
           \<and> (\<forall>sm' \<in> set (map fst mid). sm' = Some p \<or> \<not> truthy sm')
           \<and> pending_emotion_time s0 = Some (clock envp)" ..
    then obtain mid where
      b: "fs = pre @ (Some p, envp) # mid
           \<and> (\<forall>sm' \<in> set (map fst mid). sm' = Some p \<or> \<not> truthy sm')
           \<and> pending_emotion_time s0 = Some (clock envp)" ..
    show ?thesis
    proof (intro exI conjI)
      show "fs @ [f] = pre @ (Some p, envp) # (mid @ [f])" using b by simp
      show "\<forall>sm' \<in> set (map fst (mid @ [f])). sm' = Some p \<or> \<not> truthy sm'"
        using b a f by simp
      show "pending_emotion_time s1 = Some (clock envp)" using a b by simp
    qed
  qed
qed

lemma commit_needs_fresh_dwell:
  assumes "pending_emotion s = None" and "gate_frames fs s = Inr s1"
    and "stability_gate env sm s1 = Inr s2" and "current_emotion s2 \<noteq> current_emotion s1"
  shows "\<exists>pre envp mid. fs = pre @ (sm, envp) # mid
           \<and> (\<forall>sm' \<in> set (map fst mid). sm' = sm \<or> \<not> truthy sm')
           \<and> emotion_stability_threshold s \<le> clock env - clock envp"
proof -
  from gate_commit_step[OF assms(3,4)] obtain since where
    c: "truthy sm" "pending_emotion s1 = sm" "pending_emotion_time s1 = Some since"
       "emotion_stability_threshold s1 \<le> clock env - since"
    by blast
  from c(1) obtain p where p: "sm = Some p" by (cases sm) auto
  have p1: "pending_emotion s1 = Some p" using c(2) p by simp
  from pending_block[OF assms(1,2) p1] obtain pre where
      "\<exists>envp mid. fs = pre @ (Some p, envp) # mid
           \<and> (\<forall>sm' \<in> set (map fst mid). sm' = Some p \<or> \<not> truthy sm')
           \<and> pending_emotion_time s1 = Some (clock envp)" ..
  then obtain envp where
      "\<exists>mid. fs = pre @ (Some p, envp) # mid
           \<and> (\<forall>sm' \<in> set (map fst mid). sm' = Some p \<or> \<not> truthy sm')
           \<and> pending_emotion_time s1 = Some (clock envp)" ..
  then obtain mid where
      b: "fs = pre @ (Some p, envp) # mid
           \<and> (\<forall>sm' \<in> set (map fst mid). sm' = Some p \<or> \<not> truthy sm')
           \<and> pending_emotion_time s1 = Some (clock envp)" ..
  have thr: "emotion_stability_threshold s \<le> clock env - clock envp"
    using c(3,4) b gate_frames_threshold[OF assms(2)] by simp
  show ?thesis
  proof (intro exI conjI)
    show "fs = pre @ (sm, envp) # mid" using b p by simp
    show "\<forall>sm' \<in> set (map fst mid). sm' = sm \<or> \<not> truthy sm'" using b p by simp
    show "emotion_stability_threshold s \<le> clock env - clock envp" by (rule thr)
  qed
qed

text \<open>
  Claim C1. A candidate \<open>s\<close> that differs from the committed mood becomes pending on
  the analysed frame \<open>env0\<close>. As long as the gate sees \<open>s\<close> on every analysed frame and
  less than \<^verbatim>\<open>emotion_stability_threshold\<close> seconds have passed since \<open>env0\<close>, nothing
  is committed: the state is the one before \<open>env0\<close> with only the pending candidate and
  its time set (same committed mood, same track, no call to the mixer). On the first
  analysed frame \<open>env1\<close> at or after the threshold the gate commits: the committed mood
  becomes \<open>s\<close>, \<^verbatim>\<open>play_song_for_emotion\<close> is called for \<open>s\<close>, and the pending candidate
  is cleared. If instead the smoothed mood returns to the committed mood on a frame
  \<open>envr\<close> before that, the pending candidate is cleared, the committed mood stays, and
  whatever frames follow, a commit on a later frame needs its own candidate seen on a
  block of frames that lie after \<open>envr\<close>, with the threshold elapsed since the first
  frame of that block: the abandoned excursion never commits.
\<close>

theorem stability_gate_dwell:
  assumes "s \<noteq> []"
    and "current_emotion self \<noteq> Some s"
    and "pending_emotion self \<noteq> Some s"
    and "\<forall>env \<in> set envs. clock env - clock env0 < emotion_stability_threshold self"
  shows
    "gate_frames (map (Pair (Some s)) (env0 # envs)) self
       = Inr (self\<lparr>pending_emotion := Some s, pending_emotion_time := Some (clock env0)\<rparr>)
     \<and> (emotion_stability_threshold self \<le> clock env1 - clock env0 \<longrightarrow>
          (\<exists>s1. play_song_for_emotion env1 s
                    (self\<lparr>pending_emotion := Some s, pending_emotion_time := Some (clock env0),
                          current_emotion := Some s\<rparr>) = Inr (None, s1)
               \<and> gate_frames (map (Pair (Some s)) (env0 # envs @ [env1])) self
                    = Inr (s1\<lparr>pending_emotion := None\<rparr>)
               \<and> current_emotion s1 = Some s))
     \<and> (\<exists>sr. gate_frames (map (Pair (Some s)) (env0 # envs) @ [(current_emotion self, envr)]) self
                 = Inr sr
            \<and> pending_emotion sr = None
            \<and> current_emotion sr = current_emotion self
            \<and> (get_busy envr \<longrightarrow>
                  sr = self\<lparr>pending_emotion := None, pending_emotion_time := Some (clock env0),
                            mixer_calls := mixer_calls self @ [MusicGetBusy]\<rparr>)
            \<and> (\<forall>later sm env sa sb.
                  gate_frames later sr = Inr sa \<and> stability_gate env sm sa = Inr sb
                  \<and> current_emotion sb \<noteq> current_emotion sa \<longrightarrow>
                  (\<exists>pre envp mid. later = pre @ (sm, envp) # mid
                      \<and> (\<forall>sm' \<in> set (map fst mid). sm' = sm \<or> \<not> truthy sm')
                      \<and> emotion_stability_threshold self \<le> clock env - clock envp)))"
proof -
  let ?P = "self\<lparr>pending_emotion := Some s, pending_emotion_time := Some (clock env0)\<rparr>"
  have first: "stability_gate env0 (Some s) self = Inr ?P"
    using assms(1-3) by (intro gate_start) auto
  have waiting: "gate_frames (map (Pair (Some s)) envs) ?P = Inr ?P"
    using assms by (intro gate_waiting_frames[where since = "clock env0"]) auto
  have a: "gate_frames (map (Pair (Some s)) (env0 # envs)) self = Inr ?P"
    using first waiting by simp
  have b: "\<exists>s1. play_song_for_emotion env1 s (?P\<lparr>current_emotion := Some s\<rparr>) = Inr (None, s1)
               \<and> gate_frames (map (Pair (Some s)) (env0 # envs @ [env1])) self
                    = Inr (s1\<lparr>pending_emotion := None\<rparr>)
               \<and> current_emotion s1 = Some s"
    if late: "emotion_stability_threshold self \<le> clock env1 - clock env0"
  proof -
    have "\<exists>s1. play_song_for_emotion env1 (the (Some s)) (?P\<lparr>current_emotion := Some s\<rparr>) = Inr (None, s1)
            \<and> stability_gate env1 (Some s) ?P = Inr (s1\<lparr>pending_emotion := None\<rparr>)"
      using assms(1,2) late by (intro gate_commit[where since = "clock env0"]) auto
    then obtain s1 where s1: "play_song_for_emotion env1 s (?P\<lparr>current_emotion := Some s\<rparr>) = Inr (None, s1)"
      and g: "stability_gate env1 (Some s) ?P = Inr (s1\<lparr>pending_emotion := None\<rparr>)"
      by auto
    have "gate_frames (map (Pair (Some s)) (env0 # envs @ [env1])) self
            = gate_frames (map (Pair (Some s)) (env0 # envs) @ [(Some s, env1)]) self"
      by simp
    also have "\<dots> = Inr (s1\<lparr>pending_emotion := None\<rparr>)"
      using a g by (simp only: gate_frames_append) simp
    finally have run: "gate_frames (map (Pair (Some s)) (env0 # envs @ [env1])) self
            = Inr (s1\<lparr>pending_emotion := None\<rparr>)" .
    have cur: "current_emotion s1 = Some s"
      using play_song_fields(1)[OF s1] by simp
    from s1 run cur show ?thesis by simp
  qed
  have c: "\<exists>sr. gate_frames (map (Pair (Some s)) (env0 # envs) @ [(current_emotion self, envr)]) self
                 = Inr sr
            \<and> pending_emotion sr = None
            \<and> current_emotion sr = current_emotion self
            \<and> (get_busy envr \<longrightarrow>
                  sr = self\<lparr>pending_emotion := None, pending_emotion_time := Some (clock env0),
                            mixer_calls := mixer_calls self @ [MusicGetBusy]\<rparr>)
            \<and> (\<forall>later sm env sa sb.
                  gate_frames later sr = Inr sa \<and> stability_gate env sm sa = Inr sb
                  \<and> current_emotion sb \<noteq> current_emotion sa \<longrightarrow>
                  (\<exists>pre envp mid. later = pre @ (sm, envp) # mid
                      \<and> (\<forall>sm' \<in> set (map fst mid). sm' = sm \<or> \<not> truthy sm')
                      \<and> emotion_stability_threshold self \<le> clock env - clock envp))"
  proof -
    let ?X = "?P\<lparr>pending_emotion := None, mixer_calls := mixer_calls ?P @ [MusicGetBusy]\<rparr>"
    have same: "current_emotion self = current_emotion ?P" by simp
    obtain sr where g: "stability_gate envr (current_emotion self) ?P = Inr sr"
      and pn: "pending_emotion sr = None" and cu: "current_emotion sr = current_emotion self"
      and th: "emotion_stability_threshold sr = emotion_stability_threshold self"
      and bz: "get_busy envr \<longrightarrow> sr = ?X"
    proof (cases "\<not> get_busy envr \<and> truthy (current_emotion ?P)")
      case True
      then obtain s1 where
        s1: "play_song_for_emotion envr (the (current_emotion ?P)) ?X = Inr (None, s1)"
        and g: "stability_gate envr (current_emotion self) ?P = Inr s1"
        using gate_same_idle[OF same, of envr] by auto
      show ?thesis
        using that[OF g] play_song_fields(1,2,4)[OF s1] True by simp
    next
      case False
      then have "stability_gate envr (current_emotion self) ?P = Inr ?X"
        using gate_same_busy[OF same, of envr] by auto
      then show ?thesis using that[of ?X] by simp
    qed
    have run: "gate_frames (map (Pair (Some s)) (env0 # envs) @ [(current_emotion self, envr)]) self = Inr sr"
      using a g by (simp only: gate_frames_append) simp
    have fresh: "\<exists>pre envp mid. later = pre @ (sm, envp) # mid
                      \<and> (\<forall>sm' \<in> set (map fst mid). sm' = sm \<or> \<not> truthy sm')
                      \<and> emotion_stability_threshold self \<le> clock env - clock envp"
      if "gate_frames later sr = Inr sa \<and> stability_gate env sm sa = Inr sb
                  \<and> current_emotion sb \<noteq> current_emotion sa" for later sm env sa sb
      using commit_needs_fresh_dwell[OF pn, of later sa env sm sb] that th by simp
    have bz': "get_busy envr \<longrightarrow>
                  sr = self\<lparr>pending_emotion := None, pending_emotion_time := Some (clock env0),
                            mixer_calls := mixer_calls self @ [MusicGetBusy]\<rparr>"
      using bz by simp
    show ?thesis
      apply (rule exI[of _ sr])
      apply (intro conjI)
          apply (rule run)
         apply (rule pn)
        apply (rule cu)
       apply (rule bz')
      apply (intro allI impI)
      apply (erule fresh)
      done
  qed
  from a b c show ?thesis by (intro conjI impI) auto
qed

theorem stability_gate_dwell_witness:
  "''happy'' \<noteq> []
   \<and> current_emotion committed_neutral \<noteq> Some ''happy''
   \<and> pending_emotion committed_neutral \<noteq> Some ''happy''
   \<and> clock (watching ''happy'' 1) - clock (watching ''happy'' 0)
        < emotion_stability_threshold committed_neutral
   \<and> clock (watching ''happy'' 2) - clock (watching ''happy'' 0)
        < emotion_stability_threshold committed_neutral
   \<and> gate_frames (map (Pair (Some ''happy''))
          (watching ''happy'' 0 # [watching ''happy'' 1, watching ''happy'' 2])) committed_neutral
        = Inr (committed_neutral\<lparr>pending_emotion := Some ''happy'',
                                  pending_emotion_time := Some (clock (watching ''happy'' 0))\<rparr>)
   \<and> emotion_stability_threshold committed_neutral
        \<le> clock (watching ''happy'' 3) - clock (watching ''happy'' 0)
   \<and> gate_frames (map (Pair (Some ''happy''))
          (watching ''happy'' 0 # [watching ''happy'' 1, watching ''happy'' 2] @ [watching ''happy'' 3]))
          committed_neutral
        = Inr (committed_neutral
            \<lparr>pending_emotion_time := Some 0,
             current_emotion := Some ''happy'',
             mixer_calls := [MusicStop, MusicLoad ''songs/happy/a.mp3'', MusicPlay],
             current_song := Some ''songs/happy/a.mp3'',
             printed := [NowPlaying ''happy'' ''a.mp3''],
             pending_emotion := None\<rparr>)
   \<and> get_busy (watching ''neutral'' (5 / 2))
   \<and> gate_frames (map (Pair (Some ''happy''))
          (watching ''happy'' 0 # [watching ''happy'' 1, watching ''happy'' 2])
          @ [(current_emotion committed_neutral, watching ''neutral'' (5 / 2))]) committed_neutral
        = Inr (committed_neutral
            \<lparr>pending_emotion := None,
             pending_emotion_time := Some (clock (watching ''happy'' 0)),
             mixer_calls := mixer_calls committed_neutral @ [MusicGetBusy]\<rparr>)
   \<and> gate_frames [(Some ''sad'', watching ''sad'' 3)]
          (committed_neutral
            \<lparr>pending_emotion := None,
             pending_emotion_time := Some (clock (watching ''happy'' 0)),
             mixer_calls := mixer_calls committed_neutral @ [MusicGetBusy]\<rparr>)
        = Inr (committed_neutral
            \<lparr>pending_emotion := Some ''sad'', pending_emotion_time := Some 3,
             mixer_calls := [MusicGetBusy]\<rparr>)
   \<and> stability_gate (watching ''sad'' 7) (Some ''sad'')
          (committed_neutral
            \<lparr>pending_emotion := Some ''sad'', pending_emotion_time := Some 3,
             mixer_calls := [MusicGetBusy]\<rparr>)
        = Inr (committed_neutral
            \<lparr>pending_emotion_time := Some 3,
             current_emotion := Some ''sad'',
             mixer_calls := [MusicGetBusy, MusicStop, MusicLoad ''songs/sad/c.mp3'', MusicPlay],
             current_song := Some ''songs/sad/c.mp3'',
             printed := [NowPlaying ''sad'' ''c.mp3''],
             pending_emotion := None\<rparr>)
   \<and> (\<exists>pre envp mid. [(Some ''sad'', watching ''sad'' 3)] = pre @ (Some ''sad'', envp) # mid
          \<and> emotion_stability_threshold committed_neutral \<le> clock (watching ''sad'' 7) - clock envp)"
proof -
  let ?first = "watching ''happy'' 0"
  let ?envs = "[watching ''happy'' 1, watching ''happy'' 2]"
  let ?last = "watching ''happy'' 3"
  let ?revert = "watching ''neutral'' (5 / 2)"
  let ?X = "committed_neutral
            \<lparr>pending_emotion := None, pending_emotion_time := Some (clock ?first),
             mixer_calls := mixer_calls committed_neutral @ [MusicGetBusy]\<rparr>"
  let ?Y = "committed_neutral
            \<lparr>pending_emotion := Some ''sad'', pending_emotion_time := Some 3,
             mixer_calls := [MusicGetBusy]\<rparr>"
  let ?Z = "committed_neutral
            \<lparr>pending_emotion_time := Some 3,
             current_emotion := Some ''sad'',
             mixer_calls := [MusicGetBusy, MusicStop, MusicLoad ''songs/sad/c.mp3'', MusicPlay],
             current_song := Some ''songs/sad/c.mp3'',
             printed := [NowPlaying ''sad'' ''c.mp3''],
             pending_emotion := None\<rparr>"
  let ?C = "committed_neutral
            \<lparr>pending_emotion_time := Some 0,
             current_emotion := Some ''happy'',
             mixer_calls := [MusicStop, MusicLoad ''songs/happy/a.mp3'', MusicPlay],
             current_song := Some ''songs/happy/a.mp3'',
             printed := [NowPlaying ''happy'' ''a.mp3''],
             pending_emotion := None\<rparr>"
  have h1: "''happy'' \<noteq> []" by simp
  have h2: "current_emotion committed_neutral \<noteq> Some ''happy''"
    by (simp add: committed_neutral_def)
  have h3: "pending_emotion committed_neutral \<noteq> Some ''happy''"
    by (simp add: committed_neutral_def init_player_def)
  have e1: "clock (watching ''happy'' 1) - clock ?first < emotion_stability_threshold committed_neutral"
    and e2: "clock (watching ''happy'' 2) - clock ?first < emotion_stability_threshold committed_neutral"
    by (simp_all add: committed_neutral_def init_player_def watching_def quiet_env_def)
  from e1 e2 have h4: "\<forall>env \<in> set ?envs. clock env - clock ?first < emotion_stability_threshold committed_neutral"
    by simp
  note t = stability_gate_dwell[OF h1 h2 h3 h4, of ?last ?revert]
  have late: "emotion_stability_threshold committed_neutral \<le> clock ?last - clock ?first"
    by (simp add: committed_neutral_def init_player_def watching_def quiet_env_def)
  have busy: "get_busy ?revert" by (simp add: watching_def quiet_env_def)
  have a: "gate_frames (map (Pair (Some ''happy'')) (?first # ?envs)) committed_neutral
        = Inr (committed_neutral\<lparr>pending_emotion := Some ''happy'',
                                  pending_emotion_time := Some (clock ?first)\<rparr>)"
    using t by (rule conjunct1)
  from t late obtain s1 where
    p: "play_song_for_emotion ?last ''happy''
          (committed_neutral\<lparr>pending_emotion := Some ''happy'', pending_emotion_time := Some (clock ?first),
                          current_emotion := Some ''happy''\<rparr>) = Inr (None, s1)"
    and g: "gate_frames (map (Pair (Some ''happy'')) (?first # ?envs @ [?last])) committed_neutral
          = Inr (s1\<lparr>pending_emotion := None\<rparr>)"
    by blast
  have "play_song_for_emotion ?last ''happy''
          (committed_neutral\<lparr>pending_emotion := Some ''happy'', pending_emotion_time := Some (clock ?first),
                          current_emotion := Some ''happy''\<rparr>)
        = Inr (None, ?C\<lparr>pending_emotion := Some ''happy''\<rparr>)"
    by (simp add: run_defs committed_neutral_def)
  with p have "s1 = ?C\<lparr>pending_emotion := Some ''happy''\<rparr>" by simp
  with g have b: "gate_frames (map (Pair (Some ''happy'')) (?first # ?envs @ [?last])) committed_neutral = Inr ?C"
    by simp
  from t busy obtain sr where
    r: "gate_frames (map (Pair (Some ''happy'')) (?first # ?envs) @ [(current_emotion committed_neutral, ?revert)])
          committed_neutral = Inr sr"
    and sr: "sr = ?X"
    and fresh: "\<forall>later sm env sa sb.
                  gate_frames later sr = Inr sa \<and> stability_gate env sm sa = Inr sb
                  \<and> current_emotion sb \<noteq> current_emotion sa \<longrightarrow>
                  (\<exists>pre envp mid. later = pre @ (sm, envp) # mid
                      \<and> (\<forall>sm' \<in> set (map fst mid). sm' = sm \<or> \<not> truthy sm')
                      \<and> emotion_stability_threshold committed_neutral \<le> clock env - clock envp)"
    by blast
  from r sr have c: "gate_frames (map (Pair (Some ''happy'')) (?first # ?envs) @ [(current_emotion committed_neutral, ?revert)])
          committed_neutral = Inr ?X"
    by simp
  have l1: "gate_frames [(Some ''sad'', watching ''sad'' 3)] ?X = Inr ?Y"
    by (simp add: run_defs committed_neutral_def)
  have l2: "stability_gate (watching ''sad'' 7) (Some ''sad'') ?Y = Inr ?Z"
    by (simp add: run_defs committed_neutral_def)
  have l3: "current_emotion ?Z \<noteq> current_emotion ?Y"
    by (simp add: committed_neutral_def)
  from fresh[rule_format, of "[(Some ''sad'', watching ''sad'' 3)]" ?Y "watching ''sad'' 7" "Some ''sad''" ?Z]
    l1 l2 l3 sr
  have d: "\<exists>pre envp mid. [(Some ''sad'', watching ''sad'' 3)] = pre @ (Some ''sad'', envp) # mid
          \<and> emotion_stability_threshold committed_neutral \<le> clock (watching ''sad'' 7) - clock envp"
    by blast
  from h1 h2 h3 e1 e2 a late b busy c l1 l2 d show ?thesis by blast
qed

section \<open>The main loop\<close>

lemma gate_fields:
  assumes "stability_gate env sm s = Inr s'"
  shows "emotion_history s' = emotion_history s"
    and "detection_frequency s' = detection_frequency s"
    and "frame_count s' = frame_count s"
    and "songs s' = songs s"
proof -
  show "emotion_history s' = emotion_history s"
    using assms
  proof (cases rule: gate_cases)
    case (commit since s1)
    then show ?thesis using play_song_fields(5)[OF commit(6)] by simp
  next
    case (replay s1)
    then show ?thesis using play_song_fields(5)[OF replay(4)] by simp
  qed simp_all
  show "detection_frequency s' = detection_frequency s"
    using assms
  proof (cases rule: gate_cases)
    case (commit since s1)
    then show ?thesis using play_song_fields(6)[OF commit(6)] by simp
  next
    case (replay s1)
    then show ?thesis using play_song_fields(6)[OF replay(4)] by simp
  qed simp_all
  show "frame_count s' = frame_count s"
    using assms
  proof (cases rule: gate_cases)
    case (commit since s1)
    then show ?thesis using play_song_fields(9)[OF commit(6)] by simp
  next
    case (replay s1)
    then show ?thesis using play_song_fields(9)[OF replay(4)] by simp
  qed simp_all
  show "songs s' = songs s"
    using assms
  proof (cases rule: gate_cases)
    case (commit since s1)
    then show ?thesis using play_song_fields(8)[OF commit(6)] by simp
  next
    case (replay s1)
    then show ?thesis using play_song_fields(8)[OF replay(4)] by simp
  qed simp_all
qed

lemma gate_polls:
  assumes "stability_gate env sm s = Inr s'"
  shows "count_list (mixer_calls s') MusicGetBusy
           = count_list (mixer_calls s) MusicGetBusy + (if sm = current_emotion s then 1 else 0)"
  using assms
proof (cases rule: gate_cases)
  case (commit since s1)
  then show ?thesis using play_song_polls[OF commit(6)] by simp
next
  case (replay s1)
  then show ?thesis using play_song_polls[OF replay(4)] by simp
qed simp_all


lemma analyze_cases:
  assumes "analyze env s = Inr s'"
  obtains
    (skipped) "s' = s\<lparr>printed := printed s'\<rparr>"
  | (gated) c conf sm where "c \<noteq> []"
      "get_smoothed_emotion (s\<lparr>emotion_history := deque_append (emotion_history s) c,
                                last_detected_emotion := Some c, last_confidence := conf\<rparr>) = Inr sm"
      "stability_gate env sm (s\<lparr>emotion_history := deque_append (emotion_history s) c,
                                last_detected_emotion := Some c, last_confidence := conf\<rparr>) = Inr s'"
proof (cases "detect env")
  case (DetectionRaises msg)
  with assms have "s' = s\<lparr>printed := printed s'\<rparr>" by (auto simp: analyze_def)
  then show ?thesis by (rule skipped)
next
  case (Detected result)
  show ?thesis
  proof (cases "result = []")
    case True
    with assms Detected have "s' = s\<lparr>printed := printed s'\<rparr>" by (auto simp: analyze_def)
    then show ?thesis by (rule skipped)
  next
    case False
    then obtain fc where fc: "py_max (\<lambda>x. case face_box x of (x0, y0, w, h) \<Rightarrow> w * h) result = Inr fc"
      by (cases result) (auto simp: py_max_def)
    show ?thesis
    proof (cases "get_dominant_emotion_category s (face_emotions fc) True")
      case (Inl e)
      with assms Detected False fc show ?thesis by (simp add: analyze_def)
    next
      case (Inr d)
      show ?thesis
      proof (cases d)
        case (Category c)
        with assms Detected False fc Inr show ?thesis by (simp add: analyze_def)
      next
        case (CategoryConfidence ec conf)
        show ?thesis
        proof (cases "truthy ec")
          case False
          with assms Detected \<open>result \<noteq> []\<close> fc Inr CategoryConfidence
          have "s' = s\<lparr>printed := printed s'\<rparr>" by (auto simp: analyze_def)
          then show ?thesis by (rule skipped)
        next
          case True
          then obtain c where c: "ec = Some c" "c \<noteq> []" by (cases ec) auto
          let ?s1 = "s\<lparr>emotion_history := deque_append (emotion_history s) c,
                        last_detected_emotion := Some c, last_confidence := conf\<rparr>"
          from assms Detected \<open>result \<noteq> []\<close> fc Inr CategoryConfidence c
          have r: "(case get_smoothed_emotion ?s1 of Inl e \<Rightarrow> Inl e
                    | Inr sm \<Rightarrow> stability_gate env sm ?s1) = Inr s'"
            by (simp add: analyze_def Let_def)
          then obtain sm where "get_smoothed_emotion ?s1 = Inr sm" "stability_gate env sm ?s1 = Inr s'"
            by (cases "get_smoothed_emotion ?s1") auto
          with c(2) show ?thesis by (rule gated)
        qed
      qed
    qed
  qed
qed

lemma loop_body_cases:
  assumes "loop_body env s = Inr (stopped, s')"
  obtains
    (no_frame) "\<not> frame_ok env" "stopped" "s' = s\<lparr>printed := printed s @ [CouldNotReadFrame]\<rparr>"
  | (frame) s1 where "frame_ok env" "detection_frequency s \<noteq> 0"
      "if frame_count s mod detection_frequency s = 0 then analyze env s = Inr s1 else s1 = s"
      "s' = (if key_q env then s1\<lparr>printed := printed s1 @ [Stopping]\<rparr>
             else s1\<lparr>frame_count := frame_count s1 + 1\<rparr>)"
      "stopped = key_q env"
proof (cases "frame_ok env")
  case False
  with assms show ?thesis by (intro no_frame) (auto simp: loop_body_def)
next
  case True
  show ?thesis
  proof (cases "frame_count s mod detection_frequency s = 0")
    case samp: True
    with assms True obtain s1 where "detection_frequency s \<noteq> 0" "analyze env s = Inr s1"
      "s' = (if key_q env then s1\<lparr>printed := printed s1 @ [Stopping]\<rparr>
             else s1\<lparr>frame_count := frame_count s1 + 1\<rparr>)" "stopped = key_q env"
      by (auto simp: loop_body_def split: if_splits sum.splits)
    with True samp show ?thesis by (intro frame[of s1]) auto
  next
    case samp: False
    with assms True have "detection_frequency s \<noteq> 0"
      "s' = (if key_q env then s\<lparr>printed := printed s @ [Stopping]\<rparr>
             else s\<lparr>frame_count := frame_count s + 1\<rparr>)" "stopped = key_q env"
      by (auto simp: loop_body_def split: if_splits sum.splits)
    with True samp show ?thesis by (intro frame[of s]) auto
  qed
qed

lemma analyze_history:
  assumes "analyze env s = Inr s'"
  shows "emotion_history s' = emotion_history s
       \<or> (\<exists>c. emotion_history s' = deque_append (emotion_history s) c)"
  using assms
proof (cases rule: analyze_cases)
  case skipped
  have "emotion_history s' = emotion_history (s\<lparr>printed := printed s'\<rparr>)"
    by (subst skipped) simp
  then show ?thesis by simp
next
  case (gated c conf sm)
  from gate_fields(1)[OF gated(3)] show ?thesis by auto
qed

lemma loop_body_history:
  assumes "loop_body env s = Inr (stopped, s')"
    and "length (items (emotion_history s)) \<le> maxlen (emotion_history s)"
  shows "length (items (emotion_history s')) \<le> maxlen (emotion_history s')
       \<and> maxlen (emotion_history s') = maxlen (emotion_history s)"
  using assms(1)
proof (cases rule: loop_body_cases)
  case no_frame
  then show ?thesis using assms(2) by simp
next
  case (frame s1)
  have "length (items (emotion_history s1)) \<le> maxlen (emotion_history s1)
       \<and> maxlen (emotion_history s1) = maxlen (emotion_history s)"
  proof (cases "frame_count s mod detection_frequency s = 0")
    case True
    with frame(3) have "analyze env s = Inr s1" by simp
    from analyze_history[OF this] show ?thesis
      using assms(2) by (auto simp: deque_append_length deque_append_maxlen)
  next
    case False
    with frame(3) assms(2) show ?thesis by simp
  qed
  with frame(4) show ?thesis by simp
qed

lemma run_loop_history:
  assumes "run_loop envs s = Inr (stopped, s')"
    and "length (items (emotion_history s)) \<le> maxlen (emotion_history s)"
  shows "length (items (emotion_history s')) \<le> maxlen (emotion_history s)"
  using assms
proof (induction envs arbitrary: s)
  case Nil
  then show ?case by simp
next
  case (Cons env envs)
  from Cons.prems(1) obtain b s1 where s1: "loop_body env s = Inr (b, s1)"
    by (cases "loop_body env s") auto
  from loop_body_history[OF s1 Cons.prems(2)]
  have inv: "length (items (emotion_history s1)) \<le> maxlen (emotion_history s1)"
    and m: "maxlen (emotion_history s1) = maxlen (emotion_history s)" by simp_all
  show ?case
  proof (cases b)
    case True
    with Cons.prems(1) s1 have "s' = s1" by simp
    with inv m show ?thesis by simp
  next
    case False
    with Cons.prems(1) s1 have "run_loop envs s1 = Inr (stopped, s')" by simp
    from Cons.IH[OF this inv] m show ?thesis by simp
  qed
qed



lemma analyze_polls:
  assumes "analyze env s = Inr s'"
  shows "count_list (mixer_calls s') MusicGetBusy \<le> count_list (mixer_calls s) MusicGetBusy + 1"
  using assms
proof (cases rule: analyze_cases)
  case skipped
  have "mixer_calls s' = mixer_calls (s\<lparr>printed := printed s'\<rparr>)"
    by (subst skipped) simp
  then show ?thesis by simp
next
  case (gated c conf sm)
  from gate_polls[OF gated(3)] show ?thesis by simp
qed



lemma loop_body_polls:
  assumes "loop_body env s = Inr (stopped, s')"
  shows "count_list (mixer_calls s') MusicGetBusy \<le> count_list (mixer_calls s) MusicGetBusy + 1"
  using assms
proof (cases rule: loop_body_cases)
  case no_frame
  then show ?thesis by simp
next
  case (frame s1)
  have "count_list (mixer_calls s1) MusicGetBusy \<le> count_list (mixer_calls s) MusicGetBusy + 1"
  proof (cases "frame_count s mod detection_frequency s = 0")
    case True
    with frame(3) have "analyze env s = Inr s1" by simp
    from analyze_polls[OF this] show ?thesis .
  next
    case False
    with frame(3) show ?thesis by simp
  qed
  with frame(4) show ?thesis by simp
qed

lemma loop_body_unsampled:
  assumes "loop_body env s = Inr (stopped, s')"
    and "frame_count s mod detection_frequency s \<noteq> 0"
  shows "mixer_calls s' = mixer_calls s \<and> current_song s' = current_song s
         \<and> current_emotion s' = current_emotion s"
  using assms(1)
proof (cases rule: loop_body_cases)
  case no_frame
  then show ?thesis by simp
next
  case (frame s1)
  with assms(2) show ?thesis by simp
qed

lemma analyze_gated:
  assumes "detect env = Detected result" and "result \<noteq> []"
    and "py_max (\<lambda>x. case face_box x of (x0, y0, w, h) \<Rightarrow> w * h) result = Inr fc"
    and "get_dominant_emotion_category self (face_emotions fc) True
           = Inr (CategoryConfidence (Some c) conf)"
    and "c \<noteq> []"
    and "get_smoothed_emotion
           (self\<lparr>emotion_history := deque_append (emotion_history self) c,
                  last_detected_emotion := Some c, last_confidence := conf\<rparr>) = Inr sm"
  shows "analyze env self
           = stability_gate env sm
               (self\<lparr>emotion_history := deque_append (emotion_history self) c,
                      last_detected_emotion := Some c, last_confidence := conf\<rparr>)"
  using assms by (simp add: analyze_def Let_def)

lemma analyze_without_category:
  assumes "detect env = DetectionRaises msg
         \<or> detect env = Detected []
         \<or> (detect env = Detected result \<and> result \<noteq> []
              \<and> py_max (\<lambda>x. case face_box x of (x0, y0, w, h) \<Rightarrow> w * h) result = Inr fc
              \<and> get_dominant_emotion_category self (face_emotions fc) True
                    = Inr (CategoryConfidence ec conf)
              \<and> \<not> truthy ec)"
  shows "analyze env self
           = Inr (case detect env of
                    DetectionRaises m \<Rightarrow> self\<lparr>printed := printed self @ [DetectionError m]\<rparr>
                  | Detected r \<Rightarrow> self)"
  using assms by (auto simp add: analyze_def)

lemma loop_body_sampled:
  assumes "frame_ok env" and "detection_frequency self \<noteq> 0"
    and "frame_count self mod detection_frequency self = 0"
    and "analyze env self = Inr s1"
  shows "loop_body env self
           = Inr (key_q env,
                  if key_q env then s1\<lparr>printed := printed s1 @ [Stopping]\<rparr>
                  else s1\<lparr>frame_count := frame_count s1 + 1\<rparr>)"
  using assms by (simp add: loop_body_def)

text \<open>
  Claim C5. Whatever is pushed onto the history of a new player, its length never
  exceeds 10: the history holds the last ten pushes. After eleven pushes it holds the
  second to the eleventh, so the entry pushed first has been evicted (when the pushed
  values are pairwise distinct the first value is no longer in the history; an equal
  category pushed later is of course still there). The same bound holds for the
  history of every state the main loop reaches from a new player.
\<close>

theorem history_bounded_fifo:
  "length (items (foldl deque_append (emotion_history (init_player catalogue)) xs)) \<le> 10
   \<and> items (foldl deque_append (emotion_history (init_player catalogue)) xs)
       = drop (length xs - 10) xs
   \<and> (length xs = 11 \<longrightarrow>
        items (foldl deque_append (emotion_history (init_player catalogue)) xs) = tl xs)
   \<and> (length xs = 11 \<and> distinct xs \<longrightarrow>
        hd xs \<notin> set (items (foldl deque_append (emotion_history (init_player catalogue)) xs)))
   \<and> (run_loop envs (init_player catalogue) = Inr (stopped, s') \<longrightarrow>
        length (items (emotion_history s')) \<le> 10)"
proof -
  let ?h = "emotion_history (init_player catalogue) :: string deque"
  have h: "items ?h = []" "maxlen ?h = 10"
    by (simp_all add: init_player_def deque_new_def)
  have len: "length (items (foldl deque_append ?h xs)) \<le> 10"
    using foldl_deque_append_length[of ?h xs] h by simp
  have dr: "items (foldl deque_append ?h xs) = drop (length xs - 10) xs"
    using foldl_deque_append_drop[of ?h xs] h by simp
  have tl: "items (foldl deque_append ?h xs) = tl xs" if "length xs = 11"
    using dr that by (simp add: drop_Suc)
  have absent: "hd xs \<notin> set (items (foldl deque_append ?h xs))"
    if "length xs = 11 \<and> distinct xs"
  proof -
    from that obtain y ys where "xs = y # ys" by (cases xs) auto
    with that tl show ?thesis by simp
  qed
  have loop: "length (items (emotion_history s')) \<le> 10"
    if "run_loop envs (init_player catalogue) = Inr (stopped, s')"
    using run_loop_history[OF that] h by simp
  from len dr tl absent loop show ?thesis by blast
qed

theorem history_bounded_fifo_witness:
  "length [''a'', ''b'', ''c'', ''d'', ''e'', ''f'', ''g'', ''h'', ''i'', ''j'', ''k''] = 11
   \<and> distinct [''a'', ''b'', ''c'', ''d'', ''e'', ''f'', ''g'', ''h'', ''i'', ''j'', ''k'']
   \<and> items (foldl deque_append (emotion_history (init_player sample_catalogue))
              [''a'', ''b'', ''c'', ''d'', ''e'', ''f'', ''g'', ''h'', ''i'', ''j'', ''k''])
        = [''b'', ''c'', ''d'', ''e'', ''f'', ''g'', ''h'', ''i'', ''j'', ''k'']
   \<and> ''a'' \<notin> set (items (foldl deque_append (emotion_history (init_player sample_catalogue))
              [''a'', ''b'', ''c'', ''d'', ''e'', ''f'', ''g'', ''h'', ''i'', ''j'', ''k'']))
   \<and> run_loop (seen ''happy'' 0) (init_player sample_catalogue)
        = Inr (False, (init_player sample_catalogue)
            \<lparr>emotion_history := \<lparr>maxlen = 10, items = [''happy'']\<rparr>,
             last_detected_emotion := Some ''happy'', last_confidence := 9 / 10,
             mixer_calls := [MusicGetBusy], frame_count := 3\<rparr>)
   \<and> length (items (emotion_history ((init_player sample_catalogue)
            \<lparr>emotion_history := \<lparr>maxlen = 10, items = [''happy'']\<rparr>,
             last_detected_emotion := Some ''happy'', last_confidence := 9 / 10,
             mixer_calls := [MusicGetBusy], frame_count := 3\<rparr>))) \<le> 10"
proof -
  let ?xs = "[''a'', ''b'', ''c'', ''d'', ''e'', ''f'', ''g'', ''h'', ''i'', ''j'', ''k'']"
  let ?s = "(init_player sample_catalogue)
            \<lparr>emotion_history := \<lparr>maxlen = 10, items = [''happy'']\<rparr>,
             last_detected_emotion := Some ''happy'', last_confidence := 9 / 10,
             mixer_calls := [MusicGetBusy], frame_count := 3\<rparr>"
  have l: "length ?xs = 11" by simp
  have d: "distinct ?xs" by simp
  have r: "run_loop (seen ''happy'' 0) (init_player sample_catalogue) = Inr (False, ?s)"
    by (simp add: seen_def watching_def init_player_def sample_catalogue_def quiet_env_def sample_face_def
        loop_body_def analyze_def stability_gate_def play_song_for_emotion_def load_and_play_def
        get_smoothed_emotion_def get_dominant_emotion_category_def py_max_def deque_append_def
        deque_new_def emotion_categories_def Let_def)
  note t = history_bounded_fifo[where catalogue = sample_catalogue and xs = ?xs
      and envs = "seen ''happy'' 0" and stopped = False and s' = ?s]
  have 1: "items (foldl deque_append (emotion_history (init_player sample_catalogue)) ?xs) = tl ?xs"
    using t l by blast
  have 2: "hd ?xs \<notin> set (items (foldl deque_append (emotion_history (init_player sample_catalogue)) ?xs))"
    using t l d by blast
  have 3: "length (items (emotion_history ?s)) \<le> 10"
    using t r by blast
  from l d 1 2 r 3 show ?thesis by simp
qed

text \<open>
  Claim C6, as stated, fails: the busy status is not polled on every iteration. A new
  player sees a happy face on the analysed frames 0, 3, 6 and 9 (clock 0, 1, 2 and
  5), which commits happy and starts a track; this is the state \<open>happy_playing\<close>,
  with frame count 10. In the next iteration the mixer would report idle and a
  committed mood exists, but the frame is not a sampled one (10 is no multiple of
  3): \<^verbatim>\<open>get_busy\<close> is not called and nothing is re-triggered, the calls made to the
  mixer are the same as before.
\<close>

theorem replay_not_every_frame_counterexample:
  "run_loop (seen ''happy'' 0 @ seen ''happy'' 1 @ seen ''happy'' 2 @ [watching ''happy'' 5])
       (init_player sample_catalogue)
     = Inr (False, happy_playing)
   \<and> current_emotion happy_playing = Some ''happy''
   \<and> frame_ok (quiet_env\<lparr>get_busy := False\<rparr>)
   \<and> \<not> get_busy (quiet_env\<lparr>get_busy := False\<rparr>)
   \<and> loop_body (quiet_env\<lparr>get_busy := False\<rparr>) happy_playing
     = Inr (False, happy_playing\<lparr>frame_count := 11\<rparr>)
   \<and> mixer_calls (happy_playing\<lparr>frame_count := 11\<rparr>) = mixer_calls happy_playing"
  by (simp add: run_defs happy_playing_def)

text \<open>
  Claim C6, amended. Take an iteration of the main loop whose frame arrives and is
  sampled (the frame count is a multiple of the detection frequency), on which the
  classifier returns faces, the largest of which gets a confident category \<open>c\<close>, and
  let \<open>pushed\<close> be the state after \<open>c\<close> has been pushed into the history. When the
  smoothed mood of \<open>pushed\<close> equals the committed mood, the iteration polls the busy
  status once; if the mixer reports idle and the committed mood is truthy the
  iteration calls \<^verbatim>\<open>play_song_for_emotion\<close> for the committed mood and ends in the state
  that call returns (with the frame count advanced, or the quit message printed);
  otherwise it only clears the pending candidate. When the smoothed mood differs from
  the committed mood the status is not polled. An iteration that is sampled but has
  no confident category (the classifier raises, finds no face, or the score is below
  the threshold) makes no call to the mixer, nor does an iteration whose frame is
  not sampled; and no iteration polls more than once.
\<close>

theorem replay_on_same_mood_frames:
  "(frame_ok env \<and> detection_frequency self \<noteq> 0
      \<and> frame_count self mod detection_frequency self = 0
      \<and> detect env = Detected result \<and> result \<noteq> []
      \<and> py_max (\<lambda>x. case face_box x of (x0, y0, w, h) \<Rightarrow> w * h) result = Inr fc
      \<and> get_dominant_emotion_category self (face_emotions fc) True
            = Inr (CategoryConfidence (Some c) conf)
      \<and> c \<noteq> []
      \<and> pushed = self\<lparr>emotion_history := deque_append (emotion_history self) c,
                         last_detected_emotion := Some c, last_confidence := conf\<rparr>
      \<and> get_smoothed_emotion pushed = Inr (current_emotion self)
      \<and> \<not> get_busy env \<and> truthy (current_emotion self) \<longrightarrow>
      (\<exists>s1. play_song_for_emotion env (the (current_emotion self))
                (pushed\<lparr>pending_emotion := None,
                        mixer_calls := mixer_calls self @ [MusicGetBusy]\<rparr>)
              = Inr (None, s1)
           \<and> loop_body env self
              = Inr (key_q env,
                     if key_q env then s1\<lparr>printed := printed s1 @ [Stopping]\<rparr>
                     else s1\<lparr>frame_count := frame_count s1 + 1\<rparr>)
           \<and> count_list (mixer_calls s1) MusicGetBusy
                = count_list (mixer_calls self) MusicGetBusy + 1))
   \<and> (frame_ok env \<and> detection_frequency self \<noteq> 0
      \<and> frame_count self mod detection_frequency self = 0
      \<and> detect env = Detected result \<and> result \<noteq> []
      \<and> py_max (\<lambda>x. case face_box x of (x0, y0, w, h) \<Rightarrow> w * h) result = Inr fc
      \<and> get_dominant_emotion_category self (face_emotions fc) True
            = Inr (CategoryConfidence (Some c) conf)
      \<and> c \<noteq> []
      \<and> pushed = self\<lparr>emotion_history := deque_append (emotion_history self) c,
                         last_detected_emotion := Some c, last_confidence := conf\<rparr>
      \<and> get_smoothed_emotion pushed = Inr (current_emotion self)
      \<and> (get_busy env \<or> \<not> truthy (current_emotion self)) \<longrightarrow>
      loop_body env self
        = Inr (key_q env,
               if key_q env
               then pushed\<lparr>pending_emotion := None,
                           mixer_calls := mixer_calls self @ [MusicGetBusy],
                           printed := printed self @ [Stopping]\<rparr>
               else pushed\<lparr>pending_emotion := None,
                           mixer_calls := mixer_calls self @ [MusicGetBusy],
                           frame_count := frame_count self + 1\<rparr>))
   \<and> (frame_ok env \<and> detection_frequency self \<noteq> 0
      \<and> frame_count self mod detection_frequency self = 0
      \<and> detect env = Detected result \<and> result \<noteq> []
      \<and> py_max (\<lambda>x. case face_box x of (x0, y0, w, h) \<Rightarrow> w * h) result = Inr fc
      \<and> get_dominant_emotion_category self (face_emotions fc) True
            = Inr (CategoryConfidence (Some c) conf)
      \<and> c \<noteq> []
      \<and> pushed = self\<lparr>emotion_history := deque_append (emotion_history self) c,
                         last_detected_emotion := Some c, last_confidence := conf\<rparr>
      \<and> get_smoothed_emotion pushed = Inr sm \<and> sm \<noteq> current_emotion self
      \<and> loop_body env self = Inr (stopped, s') \<longrightarrow>
      count_list (mixer_calls s') MusicGetBusy = count_list (mixer_calls self) MusicGetBusy)
   \<and> (frame_ok env \<and> detection_frequency self \<noteq> 0
      \<and> frame_count self mod detection_frequency self = 0
      \<and> (detect env = DetectionRaises msg
           \<or> detect env = Detected []
           \<or> (detect env = Detected result \<and> result \<noteq> []
                \<and> py_max (\<lambda>x. case face_box x of (x0, y0, w, h) \<Rightarrow> w * h) result = Inr fc
                \<and> get_dominant_emotion_category self (face_emotions fc) True
                      = Inr (CategoryConfidence ec conf)
                \<and> \<not> truthy ec))
      \<and> loop_body env self = Inr (stopped, s') \<longrightarrow>
      mixer_calls s' = mixer_calls self \<and> current_song s' = current_song self)
   \<and> (loop_body env self = Inr (stopped, s')
        \<and> frame_count self mod detection_frequency self \<noteq> 0 \<longrightarrow>
        mixer_calls s' = mixer_calls self \<and> current_song s' = current_song self)
   \<and> (loop_body env self = Inr (stopped, s') \<longrightarrow>
        count_list (mixer_calls s') MusicGetBusy \<le> count_list (mixer_calls self) MusicGetBusy + 1)"
proof -
  let ?area = "\<lambda>x. case face_box x of (x0, y0, w, h) \<Rightarrow> w * h"
  let ?pushed = "self\<lparr>emotion_history := deque_append (emotion_history self) c,
                       last_detected_emotion := Some c, last_confidence := conf\<rparr>"
  have gated: "analyze env self = stability_gate env m ?pushed"
    if "detect env = Detected result" "result \<noteq> []" "py_max ?area result = Inr fc"
      "get_dominant_emotion_category self (face_emotions fc) True
         = Inr (CategoryConfidence (Some c) conf)"
      "c \<noteq> []" "get_smoothed_emotion ?pushed = Inr m" for m
    using that by (rule analyze_gated)
  have idle: "\<exists>s1. play_song_for_emotion env (the (current_emotion self))
                (pushed\<lparr>pending_emotion := None,
                        mixer_calls := mixer_calls self @ [MusicGetBusy]\<rparr>)
              = Inr (None, s1)
           \<and> loop_body env self
              = Inr (key_q env,
                     if key_q env then s1\<lparr>printed := printed s1 @ [Stopping]\<rparr>
                     else s1\<lparr>frame_count := frame_count s1 + 1\<rparr>)
           \<and> count_list (mixer_calls s1) MusicGetBusy
                = count_list (mixer_calls self) MusicGetBusy + 1"
    if h: "frame_ok env" "detection_frequency self \<noteq> 0"
      "frame_count self mod detection_frequency self = 0"
      "detect env = Detected result" "result \<noteq> []" "py_max ?area result = Inr fc"
      "get_dominant_emotion_category self (face_emotions fc) True
         = Inr (CategoryConfidence (Some c) conf)"
      "c \<noteq> []" "pushed = ?pushed"
      "get_smoothed_emotion pushed = Inr (current_emotion self)"
      "\<not> get_busy env" "truthy (current_emotion self)"
  proof -
    have an: "analyze env self = stability_gate env (current_emotion self) ?pushed"
      using h(4-8) h(10)[unfolded h(9)] by (rule gated)
    have same: "current_emotion self = current_emotion ?pushed" by simp
    have tr: "truthy (current_emotion ?pushed)" using h(12) by simp
    from gate_same_idle[OF same h(11) tr] obtain s1 where
      p: "play_song_for_emotion env (the (current_emotion ?pushed))
            (?pushed\<lparr>pending_emotion := None,
                     mixer_calls := mixer_calls ?pushed @ [MusicGetBusy]\<rparr>) = Inr (None, s1)"
      and g: "stability_gate env (current_emotion self) ?pushed = Inr s1"
      by blast
    have p': "play_song_for_emotion env (the (current_emotion self))
                (pushed\<lparr>pending_emotion := None,
                        mixer_calls := mixer_calls self @ [MusicGetBusy]\<rparr>) = Inr (None, s1)"
      using p h(9) by simp
    have lb: "loop_body env self
              = Inr (key_q env,
                     if key_q env then s1\<lparr>printed := printed s1 @ [Stopping]\<rparr>
                     else s1\<lparr>frame_count := frame_count s1 + 1\<rparr>)"
      using h(1-3) an g by (intro loop_body_sampled) simp_all
    have cnt: "count_list (mixer_calls s1) MusicGetBusy
                = count_list (mixer_calls self) MusicGetBusy + 1"
      using gate_polls[OF g] by simp
    from p' lb cnt show ?thesis by blast
  qed
  have busy: "loop_body env self
        = Inr (key_q env,
               if key_q env
               then pushed\<lparr>pending_emotion := None,
                           mixer_calls := mixer_calls self @ [MusicGetBusy],
                           printed := printed self @ [Stopping]\<rparr>
               else pushed\<lparr>pending_emotion := None,
                           mixer_calls := mixer_calls self @ [MusicGetBusy],
                           frame_count := frame_count self + 1\<rparr>)"
    if h: "frame_ok env" "detection_frequency self \<noteq> 0"
      "frame_count self mod detection_frequency self = 0"
      "detect env = Detected result" "result \<noteq> []" "py_max ?area result = Inr fc"
      "get_dominant_emotion_category self (face_emotions fc) True
         = Inr (CategoryConfidence (Some c) conf)"
      "c \<noteq> []" "pushed = ?pushed"
      "get_smoothed_emotion pushed = Inr (current_emotion self)"
      "get_busy env \<or> \<not> truthy (current_emotion self)"
  proof -
    have an: "analyze env self = stability_gate env (current_emotion self) ?pushed"
      using h(4-8) h(10)[unfolded h(9)] by (rule gated)
    have same: "current_emotion self = current_emotion ?pushed" by simp
    have bz: "get_busy env \<or> \<not> truthy (current_emotion ?pushed)" using h(11) by simp
    have g: "stability_gate env (current_emotion self) ?pushed
           = Inr (?pushed\<lparr>pending_emotion := None,
                           mixer_calls := mixer_calls ?pushed @ [MusicGetBusy]\<rparr>)"
      using same bz by (rule gate_same_busy)
    have "loop_body env self
              = Inr (key_q env,
                     if key_q env
                     then (?pushed\<lparr>pending_emotion := None,
                              mixer_calls := mixer_calls ?pushed @ [MusicGetBusy]\<rparr>)
                            \<lparr>printed := printed (?pushed\<lparr>pending_emotion := None,
                              mixer_calls := mixer_calls ?pushed @ [MusicGetBusy]\<rparr>) @ [Stopping]\<rparr>
                     else (?pushed\<lparr>pending_emotion := None,
                              mixer_calls := mixer_calls ?pushed @ [MusicGetBusy]\<rparr>)
                            \<lparr>frame_count := frame_count (?pushed\<lparr>pending_emotion := None,
                              mixer_calls := mixer_calls ?pushed @ [MusicGetBusy]\<rparr>) + 1\<rparr>)"
      using h(1-3) an g by (intro loop_body_sampled) simp_all
    then show ?thesis using h(9) by simp
  qed
  have other: "count_list (mixer_calls s') MusicGetBusy = count_list (mixer_calls self) MusicGetBusy"
    if h: "frame_ok env" "detection_frequency self \<noteq> 0"
      "frame_count self mod detection_frequency self = 0"
      "detect env = Detected result" "result \<noteq> []" "py_max ?area result = Inr fc"
      "get_dominant_emotion_category self (face_emotions fc) True
         = Inr (CategoryConfidence (Some c) conf)"
      "c \<noteq> []" "pushed = ?pushed"
      "get_smoothed_emotion pushed = Inr sm" "sm \<noteq> current_emotion self"
      "loop_body env self = Inr (stopped, s')"
  proof -
    have an: "analyze env self = stability_gate env sm ?pushed"
      using h(4-8) h(10)[unfolded h(9)] by (rule gated)
    from h(12) show ?thesis
    proof (cases rule: loop_body_cases)
      case no_frame
      with h(1) show ?thesis by simp
    next
      case (frame s1)
      with h(3) an have g: "stability_gate env sm ?pushed = Inr s1" by simp
      have "count_list (mixer_calls s1) MusicGetBusy = count_list (mixer_calls self) MusicGetBusy"
        using gate_polls[OF g] h(11) by simp
      with frame(4) show ?thesis by simp
    qed
  qed
  have none: "mixer_calls s' = mixer_calls self \<and> current_song s' = current_song self"
    if h: "frame_ok env" "detection_frequency self \<noteq> 0"
      "frame_count self mod detection_frequency self = 0"
      "detect env = DetectionRaises msg
           \<or> detect env = Detected []
           \<or> (detect env = Detected result \<and> result \<noteq> []
                \<and> py_max ?area result = Inr fc
                \<and> get_dominant_emotion_category self (face_emotions fc) True
                      = Inr (CategoryConfidence ec conf)
                \<and> \<not> truthy ec)"
      "loop_body env self = Inr (stopped, s')"
  proof -
    note an = analyze_without_category[OF h(4)]
    from h(5) show ?thesis
    proof (cases rule: loop_body_cases)
      case no_frame
      with h(1) show ?thesis by simp
    next
      case (frame s1)
      with h(3) an have "s1 = (case detect env of
                    DetectionRaises m \<Rightarrow> self\<lparr>printed := printed self @ [DetectionError m]\<rparr>
                  | Detected r \<Rightarrow> self)" by simp
      then have "mixer_calls s1 = mixer_calls self \<and> current_song s1 = current_song self"
        by (cases "detect env") simp_all
      with frame(4) show ?thesis by simp
    qed
  qed
  have unsampled: "mixer_calls s' = mixer_calls self \<and> current_song s' = current_song self"
    if "loop_body env self = Inr (stopped, s')"
      "frame_count self mod detection_frequency self \<noteq> 0"
    using loop_body_unsampled[OF that] by simp
  have once: "count_list (mixer_calls s') MusicGetBusy \<le> count_list (mixer_calls self) MusicGetBusy + 1"
    if "loop_body env self = Inr (stopped, s')"
    using that by (rule loop_body_polls)
  show ?thesis
    apply (intro conjI impI)
          apply (rule idle; blast)
         apply (rule busy; blast)
        apply (rule other; blast)
       apply (rule none[THEN conjunct1]; blast)
      apply (rule none[THEN conjunct2]; blast)
     apply (rule unsampled[THEN conjunct1]; blast)
    apply (rule unsampled[THEN conjunct2]; blast)
    apply (rule once; blast)
    done
qed

theorem replay_on_same_mood_frames_witness:
  "run_loop (seen ''happy'' 0 @ seen ''happy'' 1 @ seen ''happy'' 2 @ seen ''happy'' 5)
       (init_player sample_catalogue) = Inr (False, happy_sampled)
   \<and> run_loop (seen ''happy'' 0 @ seen ''happy'' 1) (init_player sample_catalogue)
       = Inr (False, two_happy)
   \<and> frame_ok ((watching ''happy'' 6)\<lparr>get_busy := False\<rparr>)
   \<and> detection_frequency happy_sampled \<noteq> 0
   \<and> frame_count happy_sampled mod detection_frequency happy_sampled = 0
   \<and> detect ((watching ''happy'' 6)\<lparr>get_busy := False\<rparr>) = Detected [sample_face ''happy'']
   \<and> py_max (\<lambda>x. case face_box x of (x0, y0, w, h) \<Rightarrow> w * h) [sample_face ''happy'']
        = Inr (sample_face ''happy'')
   \<and> get_dominant_emotion_category happy_sampled (face_emotions (sample_face ''happy'')) True
        = Inr (CategoryConfidence (Some ''happy'') (9 / 10))
   \<and> get_smoothed_emotion
         (happy_sampled\<lparr>emotion_history := deque_append (emotion_history happy_sampled) ''happy'',
                         last_detected_emotion := Some ''happy'', last_confidence := 9 / 10\<rparr>)
        = Inr (current_emotion happy_sampled)
   \<and> \<not> get_busy ((watching ''happy'' 6)\<lparr>get_busy := False\<rparr>)
   \<and> truthy (current_emotion happy_sampled)
   \<and> loop_body ((watching ''happy'' 6)\<lparr>get_busy := False\<rparr>) happy_sampled
        = Inr (False, happy_sampled
            \<lparr>emotion_history :=
               \<lparr>maxlen = 10, items = [''happy'', ''happy'', ''happy'', ''happy'', ''happy'']\<rparr>,
             mixer_calls := mixer_calls happy_sampled
                            @ [MusicGetBusy, MusicStop, MusicLoad ''songs/happy/a.mp3'', MusicPlay],
             printed := printed happy_sampled @ [NowPlaying ''happy'' ''a.mp3''],
             frame_count := 13\<rparr>)
   \<and> get_busy (watching ''happy'' 6)
   \<and> loop_body (watching ''happy'' 6) happy_sampled
        = Inr (False, happy_sampled
            \<lparr>emotion_history :=
               \<lparr>maxlen = 10, items = [''happy'', ''happy'', ''happy'', ''happy'', ''happy'']\<rparr>,
             mixer_calls := mixer_calls happy_sampled @ [MusicGetBusy],
             frame_count := 13\<rparr>)
   \<and> get_smoothed_emotion
         (two_happy\<lparr>emotion_history := deque_append (emotion_history two_happy) ''happy'',
                     last_detected_emotion := Some ''happy'', last_confidence := 9 / 10\<rparr>)
        = Inr (Some ''happy'')
   \<and> Some ''happy'' \<noteq> current_emotion two_happy
   \<and> loop_body (watching ''happy'' 2) two_happy
        = Inr (False, two_happy
            \<lparr>emotion_history := \<lparr>maxlen = 10, items = [''happy'', ''happy'', ''happy'']\<rparr>,
             pending_emotion := Some ''happy'', pending_emotion_time := Some 2,
             frame_count := 7\<rparr>)
   \<and> count_list (mixer_calls (two_happy
            \<lparr>emotion_history := \<lparr>maxlen = 10, items = [''happy'', ''happy'', ''happy'']\<rparr>,
             pending_emotion := Some ''happy'', pending_emotion_time := Some 2,
             frame_count := 7\<rparr>)) MusicGetBusy
        = count_list (mixer_calls two_happy) MusicGetBusy
   \<and> detect quiet_env = Detected []
   \<and> loop_body quiet_env happy_sampled = Inr (False, happy_sampled\<lparr>frame_count := 13\<rparr>)
   \<and> mixer_calls (happy_sampled\<lparr>frame_count := 13\<rparr>) = mixer_calls happy_sampled
   \<and> frame_count happy_playing mod detection_frequency happy_playing \<noteq> 0
   \<and> loop_body ((watching ''happy'' 6)\<lparr>get_busy := False\<rparr>) happy_playing
        = Inr (False, happy_playing\<lparr>frame_count := 11\<rparr>)
   \<and> mixer_calls (happy_playing\<lparr>frame_count := 11\<rparr>) = mixer_calls happy_playing
   \<and> count_list (mixer_calls (happy_playing\<lparr>frame_count := 11\<rparr>)) MusicGetBusy
        \<le> count_list (mixer_calls happy_playing) MusicGetBusy + 1"
proof -
  let ?idle = "(watching ''happy'' 6)\<lparr>get_busy := False\<rparr>"
  let ?busy = "watching ''happy'' 6"
  let ?area = "\<lambda>x. case face_box x of (x0, y0, w, h) \<Rightarrow> w * h"
  let ?pushed = "happy_sampled\<lparr>emotion_history := deque_append (emotion_history happy_sampled) ''happy'',
                         last_detected_emotion := Some ''happy'', last_confidence := 9 / 10\<rparr>"
  let ?pushed2 = "two_happy\<lparr>emotion_history := deque_append (emotion_history two_happy) ''happy'',
                     last_detected_emotion := Some ''happy'', last_confidence := 9 / 10\<rparr>"
  let ?replayed = "happy_sampled
            \<lparr>emotion_history :=
               \<lparr>maxlen = 10, items = [''happy'', ''happy'', ''happy'', ''happy'', ''happy'']\<rparr>,
             mixer_calls := mixer_calls happy_sampled
                            @ [MusicGetBusy, MusicStop, MusicLoad ''songs/happy/a.mp3'', MusicPlay],
             printed := printed happy_sampled @ [NowPlaying ''happy'' ''a.mp3''],
             frame_count := 13\<rparr>"
  let ?polled = "happy_sampled
            \<lparr>emotion_history :=
               \<lparr>maxlen = 10, items = [''happy'', ''happy'', ''happy'', ''happy'', ''happy'']\<rparr>,
             mixer_calls := mixer_calls happy_sampled @ [MusicGetBusy],
             frame_count := 13\<rparr>"
  let ?pending = "two_happy
            \<lparr>emotion_history := \<lparr>maxlen = 10, items = [''happy'', ''happy'', ''happy'']\<rparr>,
             pending_emotion := Some ''happy'', pending_emotion_time := Some 2,
             frame_count := 7\<rparr>"
  note st = happy_sampled_def happy_playing_def two_happy_def
  have reach1: "run_loop (seen ''happy'' 0 @ seen ''happy'' 1 @ seen ''happy'' 2 @ seen ''happy'' 5)
       (init_player sample_catalogue) = Inr (False, happy_sampled)"
    and reach2: "run_loop (seen ''happy'' 0 @ seen ''happy'' 1) (init_player sample_catalogue)
       = Inr (False, two_happy)"
    by (simp_all add: run_defs st)
  have f1: "frame_ok ?idle" and f2: "frame_ok ?busy" and f3: "frame_ok (watching ''happy'' 2)"
    and f4: "frame_ok quiet_env"
    by (simp_all add: watching_def quiet_env_def)
  have q1: "detection_frequency happy_sampled \<noteq> 0"
    and q2: "frame_count happy_sampled mod detection_frequency happy_sampled = 0"
    and q3: "detection_frequency two_happy \<noteq> 0"
    and q4: "frame_count two_happy mod detection_frequency two_happy = 0"
    and q5: "frame_count happy_playing mod detection_frequency happy_playing \<noteq> 0"
    by (simp_all add: st init_player_def)
  have d1: "detect ?idle = Detected [sample_face ''happy'']"
    and d2: "detect ?busy = Detected [sample_face ''happy'']"
    and d3: "detect (watching ''happy'' 2) = Detected [sample_face ''happy'']"
    and d4: "detect quiet_env = Detected []"
    by (simp_all add: watching_def quiet_env_def)
  have ne: "[sample_face ''happy''] \<noteq> []" by simp
  have pm: "py_max ?area [sample_face ''happy''] = Inr (sample_face ''happy'')"
    by (simp add: py_max_def)
  have c1: "get_dominant_emotion_category happy_sampled (face_emotions (sample_face ''happy'')) True
        = Inr (CategoryConfidence (Some ''happy'') (9 / 10))"
    and c2: "get_dominant_emotion_category two_happy (face_emotions (sample_face ''happy'')) True
        = Inr (CategoryConfidence (Some ''happy'') (9 / 10))"
    by (simp_all add: run_defs st)
  have hn: "''happy'' \<noteq> []" by simp
  have s1: "get_smoothed_emotion ?pushed = Inr (current_emotion happy_sampled)"
    by (simp add: run_defs st)
  have s2: "get_smoothed_emotion ?pushed2 = Inr (Some ''happy'')"
    by (simp add: run_defs st)
  have n2: "Some ''happy'' \<noteq> current_emotion two_happy"
    by (simp add: st init_player_def)
  have b1: "\<not> get_busy ?idle" and b2: "get_busy ?busy"
    by (simp_all add: watching_def quiet_env_def)
  have k1: "\<not> key_q ?idle" and k2: "\<not> key_q ?busy"
    by (simp_all add: watching_def quiet_env_def)
  have t1: "truthy (current_emotion happy_sampled)" by (simp add: st)
  have l3: "loop_body (watching ''happy'' 2) two_happy = Inr (False, ?pending)"
    by (simp add: run_defs st)
  have l4: "loop_body quiet_env happy_sampled = Inr (False, happy_sampled\<lparr>frame_count := 13\<rparr>)"
    by (simp add: run_defs st)
  have l5: "loop_body ?idle happy_playing = Inr (False, happy_playing\<lparr>frame_count := 11\<rparr>)"
    by (simp add: run_defs st)
  note on_idle = replay_on_same_mood_frames[where env = ?idle and self = happy_sampled
        and result = "[sample_face ''happy'']" and fc = "sample_face ''happy''"
        and c = "''happy''" and conf = "9 / 10" and pushed = ?pushed]
  note on_busy = replay_on_same_mood_frames[where env = ?busy and self = happy_sampled
        and result = "[sample_face ''happy'']" and fc = "sample_face ''happy''"
        and c = "''happy''" and conf = "9 / 10" and pushed = ?pushed]
  note on_other = replay_on_same_mood_frames[where env = "watching ''happy'' 2" and self = two_happy
        and result = "[sample_face ''happy'']" and fc = "sample_face ''happy''"
        and c = "''happy''" and conf = "9 / 10" and pushed = ?pushed2
        and sm = "Some ''happy''" and stopped = False and s' = ?pending]
  note on_quiet = replay_on_same_mood_frames[where env = quiet_env and self = happy_sampled
        and stopped = False and s' = "happy_sampled\<lparr>frame_count := 13\<rparr>"]
  note on_unsampled = replay_on_same_mood_frames[where env = ?idle and self = happy_playing
        and stopped = False and s' = "happy_playing\<lparr>frame_count := 11\<rparr>"]
  have r1: "loop_body ?idle happy_sampled = Inr (False, ?replayed)"
  proof -
    have "\<exists>p. play_song_for_emotion ?idle (the (current_emotion happy_sampled))
            (?pushed\<lparr>pending_emotion := None,
                     mixer_calls := mixer_calls happy_sampled @ [MusicGetBusy]\<rparr>) = Inr (None, p)
          \<and> loop_body ?idle happy_sampled
            = Inr (key_q ?idle,
                   if key_q ?idle then p\<lparr>printed := printed p @ [Stopping]\<rparr>
                   else p\<lparr>frame_count := frame_count p + 1\<rparr>)
          \<and> count_list (mixer_calls p) MusicGetBusy
                = count_list (mixer_calls happy_sampled) MusicGetBusy + 1"
      by (rule on_idle[THEN conjunct1, THEN mp])
        (intro conjI f1 q1 q2 d1 ne pm c1 hn refl s1 b1 t1)
    then obtain p where
      p: "play_song_for_emotion ?idle (the (current_emotion happy_sampled))
            (?pushed\<lparr>pending_emotion := None,
                     mixer_calls := mixer_calls happy_sampled @ [MusicGetBusy]\<rparr>) = Inr (None, p)"
      and l: "loop_body ?idle happy_sampled
            = Inr (key_q ?idle,
                   if key_q ?idle then p\<lparr>printed := printed p @ [Stopping]\<rparr>
                   else p\<lparr>frame_count := frame_count p + 1\<rparr>)"
      by blast
    have "play_song_for_emotion ?idle (the (current_emotion happy_sampled))
            (?pushed\<lparr>pending_emotion := None,
                     mixer_calls := mixer_calls happy_sampled @ [MusicGetBusy]\<rparr>)
          = Inr (None, ?replayed\<lparr>frame_count := 12\<rparr>)"
      by (simp add: run_defs st)
    with p have "p = ?replayed\<lparr>frame_count := 12\<rparr>" by simp
    with l k1 show ?thesis by simp
  qed
  have r2: "loop_body ?busy happy_sampled = Inr (False, ?polled)"
  proof -
    have "loop_body ?busy happy_sampled
        = Inr (key_q ?busy,
               if key_q ?busy
               then ?pushed\<lparr>pending_emotion := None,
                           mixer_calls := mixer_calls happy_sampled @ [MusicGetBusy],
                           printed := printed happy_sampled @ [Stopping]\<rparr>
               else ?pushed\<lparr>pending_emotion := None,
                           mixer_calls := mixer_calls happy_sampled @ [MusicGetBusy],
                           frame_count := frame_count happy_sampled + 1\<rparr>)"
      by (rule on_busy[THEN conjunct2, THEN conjunct1, THEN mp])
        (intro conjI f2 q1 q2 d2 ne pm c1 hn refl s1 disjI1[OF b2])
    with k2 show ?thesis by (simp add: st init_player_def deque_append_def deque_new_def)
  qed
  have r3: "count_list (mixer_calls ?pending) MusicGetBusy = count_list (mixer_calls two_happy) MusicGetBusy"
    by (rule on_other[THEN conjunct2, THEN conjunct2, THEN conjunct1, THEN mp])
      (intro conjI f3 q3 q4 d3 ne pm c2 hn refl s2 n2 l3)
  have r4: "mixer_calls (happy_sampled\<lparr>frame_count := 13\<rparr>) = mixer_calls happy_sampled
      \<and> current_song (happy_sampled\<lparr>frame_count := 13\<rparr>) = current_song happy_sampled"
    by (rule on_quiet[THEN conjunct2, THEN conjunct2, THEN conjunct2, THEN conjunct1, THEN mp])
      (intro conjI f4 q1 q2 disjI2[OF disjI1[OF d4]] l4)
  have r5: "mixer_calls (happy_playing\<lparr>frame_count := 11\<rparr>) = mixer_calls happy_playing
      \<and> current_song (happy_playing\<lparr>frame_count := 11\<rparr>) = current_song happy_playing"
    by (rule on_unsampled[THEN conjunct2, THEN conjunct2, THEN conjunct2, THEN conjunct2,
          THEN conjunct1, THEN mp])
      (intro conjI l5 q5)
  have r6: "count_list (mixer_calls (happy_playing\<lparr>frame_count := 11\<rparr>)) MusicGetBusy
        \<le> count_list (mixer_calls happy_playing) MusicGetBusy + 1"
    by (rule on_unsampled[THEN conjunct2, THEN conjunct2, THEN conjunct2, THEN conjunct2,
          THEN conjunct2, THEN mp])
      (rule l5)
  from reach1 reach2 f1 q1 q2 d1 pm c1 s1 b1 t1 r1 b2 r2 s2 n2 l3 r3 d4 l4 r4 q5 l5 r5 r6
  show ?thesis by (intro conjI) (assumption | erule conjunct1)+
qed




end
